theory Spec2Isabelle
  imports Main "HOL-Library.Word" "HOL-Library.Sublist"
begin

section \<open>Strings and the built-in functions the worker calls\<close>

text \<open>
  A JavaScript string is a sequence of UTF-16 code units. A code unit is a \<^typ>\<open>nat\<close>
  here, below 65536 in every string JavaScript can hold; the functions below only compare
  code units, so a larger number is one more value they are defined on. \<open>js\<close> is the
  string of a literal of the source. Bytes on the wire are \<^typ>\<open>8 word\<close>.
\<close>

type_synonym js_string = "nat list"

type_synonym byte = "8 word"

definition js :: "string \<Rightarrow> js_string" where
  "js s = map of_char s"

definition CRLF :: js_string where
  "CRLF = [0x0D, 0x0A]"

text \<open>
  \<open>TextEncoder.encode\<close> is UTF-8: a high surrogate followed by a low one is the four
  bytes of their code point, a surrogate on its own is encoded as U+FFFD.
\<close>

definition utf8 :: "nat \<Rightarrow> byte list" where
  "utf8 n =
     (if n < 0x80 then [of_nat n]
      else if n < 0x800 then [of_nat (0xC0 + n div 0x40), of_nat (0x80 + n mod 0x40)]
      else if n < 0x10000
      then [of_nat (0xE0 + n div 0x1000), of_nat (0x80 + n div 0x40 mod 0x40),
            of_nat (0x80 + n mod 0x40)]
      else [of_nat (0xF0 + n div 0x40000), of_nat (0x80 + n div 0x1000 mod 0x40),
            of_nat (0x80 + n div 0x40 mod 0x40), of_nat (0x80 + n mod 0x40)])"

definition isHighSurrogate :: "nat \<Rightarrow> bool" where
  "isHighSurrogate c = (0xD800 \<le> c \<and> c \<le> 0xDBFF)"

definition isLowSurrogate :: "nat \<Rightarrow> bool" where
  "isLowSurrogate c = (0xDC00 \<le> c \<and> c \<le> 0xDFFF)"

definition scalar :: "nat \<Rightarrow> nat" where
  "scalar c = (if isHighSurrogate c \<or> isLowSurrogate c then 0xFFFD else c)"

fun encode :: "js_string \<Rightarrow> byte list" where
  "encode [] = []"
| "encode [c] = utf8 (scalar c)"
| "encode (c # d # cs) =
     (if isHighSurrogate c \<and> isLowSurrogate d
      then utf8 (0x10000 + (c - 0xD800) * 0x400 + (d - 0xDC00)) @ encode cs
      else utf8 (scalar c) @ encode (d # cs))"

text \<open>
  \<open>String.prototype.trim\<close> removes white space and line terminators at both ends: the
  code units TAB, LF, VT, FF, CR, SP, NBSP, the space separators and the byte order mark.
\<close>

definition isWhiteSpace :: "nat \<Rightarrow> bool" where
  "isWhiteSpace c =
     (c \<in> set [0x09, 0x0A, 0x0B, 0x0C, 0x0D, 0x20, 0xA0, 0x1680, 0x2000, 0x2001, 0x2002, 0x2003,
               0x2004, 0x2005, 0x2006, 0x2007, 0x2008, 0x2009, 0x200A, 0x2028, 0x2029, 0x202F,
               0x205F, 0x3000, 0xFEFF])"

definition trim :: "js_string \<Rightarrow> js_string" where
  "trim s = rev (dropWhile isWhiteSpace (rev (dropWhile isWhiteSpace s)))"

definition startsWith :: "js_string \<Rightarrow> js_string \<Rightarrow> bool" where
  "startsWith s p = prefix p s"

text \<open>\<open>Array.prototype.join\<close>.\<close>

fun join :: "js_string list \<Rightarrow> js_string \<Rightarrow> js_string" where
  "join [] sep = []"
| "join [x] sep = x"
| "join (x # y # ys) sep = x @ sep @ join (y # ys) sep"

text \<open>
  A property that may be absent is an option. \<open>truthy\<close> is JavaScript's test of a string or
  \<open>undefined\<close> in a condition, \<open>or_default\<close> is \<open>a || d\<close>, and \<open>text_of\<close> is the
  conversion a template literal applies.
\<close>

definition truthy :: "js_string option \<Rightarrow> bool" where
  "truthy v = (case v of None \<Rightarrow> False | Some s \<Rightarrow> s \<noteq> [])"

definition or_default :: "js_string option \<Rightarrow> js_string \<Rightarrow> js_string" where
  "or_default v d = (case v of None \<Rightarrow> d | Some s \<Rightarrow> if s = [] then d else s)"

definition text_of :: "js_string option \<Rightarrow> js_string" where
  "text_of v = (case v of None \<Rightarrow> js ''undefined'' | Some s \<Rightarrow> s)"

text \<open>
  \<open>parseInt\<close> with no radix: leading white space, an optional sign, an optional
  \<open>0x\<close> prefix, then the longest run of digits; \<open>None\<close> is \<open>NaN\<close>. The result is an
  exact integer here; JavaScript rounds beyond \<open>2^53\<close>.
\<close>

definition digitValue :: "nat \<Rightarrow> nat" where
  "digitValue c = (if 48 \<le> c \<and> c \<le> 57 then c - 48
                   else if 97 \<le> c \<and> c \<le> 122 then c - 87
                   else if 65 \<le> c \<and> c \<le> 90 then c - 55
                   else 36)"

definition parseInt :: "js_string \<Rightarrow> int option" where
  "parseInt s =
     (let s1 = dropWhile isWhiteSpace s;
          negative = (s1 \<noteq> [] \<and> hd s1 = 0x2D);
          s2 = (if s1 \<noteq> [] \<and> (hd s1 = 0x2D \<or> hd s1 = 0x2B) then tl s1 else s1);
          hex = (startsWith s2 (js ''0x'') \<or> startsWith s2 (js ''0X''));
          radix = (if hex then 16 else 10);
          s3 = (if hex then drop 2 s2 else s2);
          ds = takeWhile (\<lambda>c. digitValue c < radix) s3;
          n = int (foldl (\<lambda>a c. a * radix + digitValue c) 0 ds)
      in if ds = [] then None else Some (if negative then - n else n))"

text \<open>
  \<open>btoa\<close> accepts the strings whose code units are all at most U+00FF and throws on
  every other one. \<open>latin1\<close> is that test and \<open>base64\<close> the encoding: three code units at
  a time, padded with \<open>=\<close>. \<open>btoa\<close> itself is defined with the platform, which
  supplies the value it throws.
\<close>

definition latin1 :: "js_string \<Rightarrow> bool" where
  "latin1 s = list_all (\<lambda>c. c \<le> 0xFF) s"

definition base64Alphabet :: string where
  "base64Alphabet = ''ABCDEFGHIJKLMNOPQRSTUVWXYZabcdefghijklmnopqrstuvwxyz0123456789+/''"

definition sextet :: "nat \<Rightarrow> nat" where
  "sextet n = of_char (base64Alphabet ! (n mod 64))"

fun base64 :: "js_string \<Rightarrow> js_string" where
  "base64 [] = []"
| "base64 [x] = [sextet (x div 4), sextet ((x mod 4) * 16), 0x3D, 0x3D]"
| "base64 [x, y] =
     [sextet (x div 4), sextet ((x mod 4) * 16 + y div 16), sextet ((y mod 16) * 4), 0x3D]"
| "base64 (x # y # z # rest) =
     [sextet (x div 4), sextet ((x mod 4) * 16 + y div 16),
      sextet ((y mod 16) * 4 + z div 64), sextet (z mod 64)] @ base64 rest"

text \<open>
  The decimal text of an integer, as a template literal renders the value of
  \<open>Date.now()\<close> (whose magnitude stays far below \<open>10^21\<close>, where JavaScript switches to
  exponent notation).
\<close>

fun digits :: "nat \<Rightarrow> js_string" where
  "digits n = (if n < 10 then [48 + n]
               else digits (n div 10) @ [48 + n mod 10])"

declare digits.simps [simp del]

definition numberText :: "int \<Rightarrow> js_string" where
  "numberText i = (if i < 0 then 0x2D # digits (nat (- i)) else digits (nat i))"

section \<open>The platform: sockets, streams and the clock\<close>

text \<open>
  The worker talks to the outside through \<open>connect\<close>, the sockets it returns, their
  readers and writers, and the clock. Every such call is recorded in a trace, and the
  platform's answer to a call is a function of the trace up to and including that call:
  it returns (a read returns the decoded chunk, or no value when the stream has ended),
  throws or rejects with a value, or never settles. Thrown values are objects: one with a
  \<open>message\<close> string, or one with no \<open>message\<close> property. The platform also
  supplies the value that \<open>btoa\<close> throws.
\<close>

datatype socket = TestSocket | Socket | SecureSocket

record connect_options =
  secureTransport :: js_string
  allowHalfOpen :: bool

datatype call =
    Connect js_string "int option" "connect_options option"
  | Opened socket
  | Close socket
  | StartTls
  | GetWriter socket
  | GetReader socket
  | Read socket
  | Write socket "byte list"
  | ReleaseWriter socket
  | ReleaseReader socket
  | CloseWriter socket
  | CancelReader socket

datatype thrown = Error js_string | Other

definition message_of :: "thrown \<Rightarrow> js_string option" where
  "message_of e = (case e of Error m \<Rightarrow> Some m | Other \<Rightarrow> None)"

datatype reaction = Returns "js_string option" | Throws thrown | Stalls

record world =
  react :: "call list \<Rightarrow> reaction"
  toUTCString :: js_string
  now :: int
  btoaError :: thrown

text \<open>
  A computation of the worker runs from a trace and ends with a value, with a thrown
  value, or not at all (it awaits a promise that never settles).
\<close>

datatype 'a outcome = Value 'a | Throw thrown | Hang

type_synonym 'a io = "call list \<Rightarrow> 'a outcome \<times> call list"

definition return_io :: "'a \<Rightarrow> 'a io" where
  "return_io a = (\<lambda>tr. (Value a, tr))"

definition throw_io :: "thrown \<Rightarrow> 'a io" where
  "throw_io e = (\<lambda>tr. (Throw e, tr))"

definition bind_io :: "'a io \<Rightarrow> ('a \<Rightarrow> 'b io) \<Rightarrow> 'b io" where
  "bind_io m f = (\<lambda>tr. case m tr of
                          (Value a, tr') \<Rightarrow> f a tr'
                        | (Throw e, tr') \<Rightarrow> (Throw e, tr')
                        | (Hang, tr') \<Rightarrow> (Hang, tr'))"

definition try_catch :: "'a io \<Rightarrow> (thrown \<Rightarrow> 'a io) \<Rightarrow> 'a io" where
  "try_catch m h = (\<lambda>tr. case m tr of
                            (Throw e, tr') \<Rightarrow> h e tr'
                          | r \<Rightarrow> r)"

fun block :: "unit io list \<Rightarrow> unit io" where
  "block [] = return_io ()"
| "block (s # ss) = bind_io s (\<lambda>_. block ss)"

text \<open>An awaited call, or a synchronous one: the reaction decides how it ends.\<close>

definition await :: "world \<Rightarrow> call \<Rightarrow> js_string option io" where
  "await w c = (\<lambda>tr. case react w (tr @ [c]) of
                        Returns v \<Rightarrow> (Value v, tr @ [c])
                      | Throws e \<Rightarrow> (Throw e, tr @ [c])
                      | Stalls \<Rightarrow> (Hang, tr @ [c]))"

definition perform :: "world \<Rightarrow> call \<Rightarrow> unit io" where
  "perform w c = bind_io (await w c) (\<lambda>_. return_io ())"

text \<open>\<open>btoa\<close>: no platform call is recorded, but it may throw.\<close>

definition btoa :: "world \<Rightarrow> js_string \<Rightarrow> js_string io" where
  "btoa w s = (if latin1 s then return_io (base64 s) else throw_io (btoaError w))"

text \<open>A call whose promise is dropped: whatever becomes of it, the caller goes on.\<close>

definition unawaited :: "call \<Rightarrow> unit io" where
  "unawaited c = (\<lambda>tr. (Value (), tr @ [c]))"

section \<open>The worker (src/email-worker.ts)\<close>

text \<open>
  \<open>sendEmail\<close> is modelled whole, block by block in the order of the source. Its
  \<open>console.log\<close> lines have no part in what it returns or writes and are left out, and
  so is the \<open>fetch\<close> handler below it, which only checks the request and calls
  \<open>sendEmail\<close>.
\<close>

definition SMTP_READY :: js_string where "SMTP_READY = js ''220''"
definition SMTP_OK :: js_string where "SMTP_OK = js ''250''"
definition SMTP_AUTH_SUCCESS :: js_string where "SMTP_AUTH_SUCCESS = js ''235''"
definition SMTP_START_INPUT :: js_string where "SMTP_START_INPUT = js ''354''"
definition SMTP_AUTH_CONTINUE :: js_string where "SMTP_AUTH_CONTINUE = js ''334''"

text \<open>
  The interfaces declare \<open>to\<close>, \<open>subject\<close>, \<open>body\<close> and \<open>SMTP_PASSWORD\<close> as strings, but
  \<open>sendEmail\<close> tests each of them for absence, so they are options here as well. The
  field \<open>from\<close> is written \<open>from'\<close>, \<open>from\<close> being a keyword of Isar.
\<close>

record Sender =
  email :: "js_string option"
  name :: "js_string option"

record EmailConfig =
  to :: "js_string option"
  subject :: "js_string option"
  body :: "js_string option"
  isHtml :: "bool option"
  from' :: "Sender option"

record SMTPConfig =
  SMTP_HOST :: "js_string option"
  SMTP_PORT :: "js_string option"
  SMTP_USERNAME :: "js_string option"
  SMTP_PASSWORD :: "js_string option"
  TO_EMAIL :: "js_string option"
  AUTH_CODE :: "js_string option"

record result =
  success :: bool
  message :: "js_string option"
  error :: "js_string option"

subsection \<open>The constants at the head of \<open>sendEmail\<close> (lines 36 to 45)\<close>

definition smtp_host :: "SMTPConfig \<Rightarrow> js_string" where
  "smtp_host env = or_default (SMTP_HOST env) (js ''smtp.office365.com'')"

definition smtp_port :: "SMTPConfig \<Rightarrow> int option" where
  "smtp_port env = parseInt (or_default (SMTP_PORT env) (js ''587''))"

definition smtp_username :: "SMTPConfig \<Rightarrow> js_string" where
  "smtp_username env = or_default (SMTP_USERNAME env) (js '''')"

text \<open>\<open>emailConfig.from?.email\<close> and \<open>emailConfig.from?.name\<close>.\<close>

definition sender_email :: "EmailConfig \<Rightarrow> js_string option" where
  "sender_email emailConfig = (case from' emailConfig of None \<Rightarrow> None | Some f \<Rightarrow> email f)"

definition sender_name :: "EmailConfig \<Rightarrow> js_string option" where
  "sender_name emailConfig = (case from' emailConfig of None \<Rightarrow> None | Some f \<Rightarrow> name f)"

definition from_email :: "EmailConfig \<Rightarrow> SMTPConfig \<Rightarrow> js_string" where
  "from_email emailConfig env = or_default (sender_email emailConfig) (smtp_username env)"

definition from_name :: "EmailConfig \<Rightarrow> js_string" where
  "from_name emailConfig = or_default (sender_name emailConfig) (js ''Notification'')"

definition is_html :: "EmailConfig \<Rightarrow> bool" where
  "is_html emailConfig = (case isHtml emailConfig of None \<Rightarrow> False | Some b \<Rightarrow> b)"

subsection \<open>The guards (lines 47 to 57)\<close>

definition checkParameters :: "EmailConfig \<Rightarrow> SMTPConfig \<Rightarrow> unit io" where
  "checkParameters emailConfig env =
     (if \<not> truthy (SMTP_PASSWORD env)
      then throw_io (Error (js ''SMTP_PASSWORD environment variable is not set''))
      else if smtp_username env = []
      then throw_io (Error (js ''SMTP_USERNAME environment variable is not set''))
      else if \<not> truthy (to emailConfig) \<or> \<not> truthy (subject emailConfig) \<or> \<not> truthy (body emailConfig)
      then throw_io (Error (js ''Missing required email parameters: to, subject, and body are required''))
      else return_io ())"

subsection \<open>Step 0: the reachability probe (lines 59 to 76)\<close>

definition checkReachability :: "world \<Rightarrow> SMTPConfig \<Rightarrow> unit io" where
  "checkReachability w env =
     try_catch
       (block [perform w (Connect (smtp_host env) (smtp_port env) None),
               perform w (Opened TestSocket),
               perform w (Close TestSocket)])
       (\<lambda>error. throw_io (Error (js ''SMTP server unreachable: '' @ text_of (message_of error))))"

subsection \<open>The session's connection and the helpers over it (lines 78 to 113)\<close>

definition openConnection :: "world \<Rightarrow> SMTPConfig \<Rightarrow> unit io" where
  "openConnection w env =
     block [perform w (Connect (smtp_host env) (smtp_port env)
                         (Some \<lparr>secureTransport = js ''starttls'', allowHalfOpen = False\<rparr>)),
            perform w (Opened Socket),
            perform w (GetWriter Socket),
            perform w (GetReader Socket)]"

definition readResponse :: "world \<Rightarrow> js_string io" where
  "readResponse w =
     bind_io (await w (Read Socket)) (\<lambda>value.
       case value of
         None \<Rightarrow> throw_io (Error (js ''No response from server''))
       | Some chunk \<Rightarrow> return_io (trim chunk))"

definition sendCommand :: "world \<Rightarrow> js_string \<Rightarrow> unit io" where
  "sendCommand w command = perform w (Write Socket (encode (command @ CRLF)))"

text \<open>
  Every reply but the last is checked the same way: read it, and throw the step's label
  with the reply unless it starts with the expected code.
\<close>

definition expect :: "js_string io \<Rightarrow> js_string \<Rightarrow> js_string \<Rightarrow> unit io" where
  "expect read code label =
     bind_io read (\<lambda>response.
       if \<not> startsWith response code
       then throw_io (Error (label @ js '': '' @ response))
       else return_io ())"

subsection \<open>Steps 1 to 3: greeting, EHLO, STARTTLS and the upgrade (lines 115 to 159)\<close>

definition greeting :: "world \<Rightarrow> unit io" where
  "greeting w = expect (readResponse w) SMTP_READY (js ''SMTP server not ready'')"

definition ehlo :: "world \<Rightarrow> SMTPConfig \<Rightarrow> unit io" where
  "ehlo w env =
     block [sendCommand w (js ''EHLO '' @ smtp_host env),
            expect (readResponse w) SMTP_OK (js ''EHLO failed'')]"

definition upgradeToTls :: "world \<Rightarrow> unit io" where
  "upgradeToTls w =
     block [sendCommand w (js ''STARTTLS''),
            expect (readResponse w) SMTP_READY (js ''STARTTLS failed''),
            try_catch (perform w (ReleaseWriter Socket)) (\<lambda>e. return_io ()),
            try_catch (perform w (ReleaseReader Socket)) (\<lambda>e. return_io ()),
            perform w StartTls,
            perform w (Opened SecureSocket),
            perform w (GetWriter SecureSocket),
            perform w (GetReader SecureSocket)]"

subsection \<open>The helpers over the secure socket (lines 161 to 175)\<close>

definition readSecureResponse :: "world \<Rightarrow> js_string io" where
  "readSecureResponse w =
     bind_io (await w (Read SecureSocket)) (\<lambda>value.
       case value of
         None \<Rightarrow> throw_io (Error (js ''No secure response from server''))
       | Some chunk \<Rightarrow> return_io (trim chunk))"

definition sendSecureCommand :: "world \<Rightarrow> js_string \<Rightarrow> unit io" where
  "sendSecureCommand w command = perform w (Write SecureSocket (encode (command @ CRLF)))"

subsection \<open>Steps 4 and 5: EHLO again, AUTH LOGIN (lines 177 to 210)\<close>

definition secureEhlo :: "world \<Rightarrow> SMTPConfig \<Rightarrow> unit io" where
  "secureEhlo w env =
     block [sendSecureCommand w (js ''EHLO '' @ smtp_host env),
            expect (readSecureResponse w) SMTP_OK (js ''Secure EHLO failed'')]"

definition authenticate :: "world \<Rightarrow> SMTPConfig \<Rightarrow> unit io" where
  "authenticate w env =
     block [sendSecureCommand w (js ''AUTH LOGIN''),
            expect (readSecureResponse w) SMTP_AUTH_CONTINUE (js ''AUTH LOGIN failed''),
            bind_io (btoa w (smtp_username env))
              (\<lambda>base64Username. sendSecureCommand w base64Username),
            expect (readSecureResponse w) SMTP_AUTH_CONTINUE (js ''Username authentication failed''),
            bind_io (btoa w (text_of (SMTP_PASSWORD env)))
              (\<lambda>base64Password. sendSecureCommand w base64Password),
            expect (readSecureResponse w) SMTP_AUTH_SUCCESS (js ''Password authentication failed'')]"

subsection \<open>Step 6: envelope, DATA and the message (lines 212 to 270)\<close>

definition emailHeaders :: "world \<Rightarrow> EmailConfig \<Rightarrow> SMTPConfig \<Rightarrow> js_string list" where
  "emailHeaders w emailConfig env =
     [js ''From: '' @ from_name emailConfig @ js '' <'' @ from_email emailConfig env @ js ''>'',
      js ''To: '' @ text_of (to emailConfig),
      js ''Subject: '' @ text_of (subject emailConfig),
      js ''Date: '' @ toUTCString w,
      js ''Message-ID: <'' @ numberText (now w) @ js ''@'' @ smtp_host env @ js ''>'',
      js ''MIME-Version: 1.0'']
     @ (if is_html emailConfig
        then [js ''Content-Type: text/html; charset=UTF-8'', js ''Content-Transfer-Encoding: 8bit'']
        else [js ''Content-Type: text/plain; charset=UTF-8'', js ''Content-Transfer-Encoding: 8bit''])"

definition emailMessage :: "world \<Rightarrow> EmailConfig \<Rightarrow> SMTPConfig \<Rightarrow> js_string" where
  "emailMessage w emailConfig env =
     join (emailHeaders w emailConfig env @ [js '''', text_of (body emailConfig), js ''.'']) CRLF"

definition sendMail :: "world \<Rightarrow> EmailConfig \<Rightarrow> SMTPConfig \<Rightarrow> unit io" where
  "sendMail w emailConfig env =
     block [sendSecureCommand w (js ''MAIL FROM:<'' @ from_email emailConfig env @ js ''>''),
            expect (readSecureResponse w) SMTP_OK (js ''MAIL FROM failed''),
            sendSecureCommand w (js ''RCPT TO:<'' @ text_of (to emailConfig) @ js ''>''),
            expect (readSecureResponse w) SMTP_OK (js ''RCPT TO failed''),
            sendSecureCommand w (js ''DATA''),
            expect (readSecureResponse w) SMTP_START_INPUT (js ''DATA command failed''),
            sendSecureCommand w (emailMessage w emailConfig env),
            expect (readSecureResponse w) SMTP_OK (js ''Email sending failed'')]"

subsection \<open>Step 7 and the teardown (lines 272 to 296)\<close>

definition quit :: "world \<Rightarrow> unit io" where
  "quit w =
     block [sendSecureCommand w (js ''QUIT''),
            bind_io (readSecureResponse w) (\<lambda>response. return_io ())]"

definition closeConnection :: "world \<Rightarrow> unit io" where
  "closeConnection w =
     block [try_catch (perform w (CloseWriter SecureSocket)) (\<lambda>e. return_io ()),
            try_catch (unawaited (CancelReader SecureSocket)) (\<lambda>e. return_io ()),
            try_catch (perform w (Close SecureSocket)) (\<lambda>e. return_io ())]"

subsection \<open>\<open>sendEmail\<close> (lines 33 to 310)\<close>

definition session :: "world \<Rightarrow> EmailConfig \<Rightarrow> SMTPConfig \<Rightarrow> unit io" where
  "session w emailConfig env =
     block [checkParameters emailConfig env,
            checkReachability w env,
            openConnection w env,
            greeting w,
            ehlo w env,
            upgradeToTls w,
            secureEhlo w env,
            authenticate w env,
            sendMail w emailConfig env,
            quit w,
            closeConnection w]"

definition sendEmail :: "world \<Rightarrow> EmailConfig \<Rightarrow> SMTPConfig \<Rightarrow> result outcome \<times> call list" where
  "sendEmail w emailConfig env =
     try_catch
       (bind_io (session w emailConfig env) (\<lambda>_.
          return_io \<lparr>success = True,
                     message = Some (js ''Email sent successfully to '' @ text_of (to emailConfig)),
                     error = None\<rparr>))
       (\<lambda>error.
          return_io \<lparr>success = False,
                     message = None,
                     error = Some (or_default (message_of error) (js ''Unknown error occurred''))\<rparr>)
       []"

section \<open>The session as a table of steps\<close>

text \<open>
  The same session written as data: one step per platform call, in the order of the
  source, with what the source does with the call's outcome.
  \<^item> \<open>Probe c\<close>: a call of the reachability probe; a thrown value is rethrown as
    \<open>SMTP server unreachable: ...\<close>.
  \<^item> \<open>Do c\<close>: a call whose thrown value propagates.
  \<^item> \<open>Attempt c\<close>: a call in a \<open>try\<close> whose \<open>catch\<close> only logs.
  \<^item> \<open>Forget c\<close>: a call that is not awaited, in such a \<open>try\<close>.
  \<^item> \<open>SendBase64 text\<close>: \<open>btoa\<close> of \<open>text\<close>, which may throw, then the write of its
    result on the secure socket, whose thrown value propagates.
  \<^item> \<open>Reply code label\<close>, \<open>SecureReply code label\<close>: read a reply on the plaintext or the
    secure socket and check it against \<open>code\<close>.
  \<^item> \<open>SecureReplyAny\<close>: read a reply on the secure socket and check nothing.
\<close>

datatype step =
    Probe call
  | Do call
  | Attempt call
  | Forget call
  | SendBase64 js_string
  | Reply js_string js_string
  | SecureReply js_string js_string
  | SecureReplyAny

fun call_of :: "step \<Rightarrow> call" where
  "call_of (Probe c) = c"
| "call_of (Do c) = c"
| "call_of (Attempt c) = c"
| "call_of (Forget c) = c"
| "call_of (SendBase64 text) = Write SecureSocket (encode (base64 text @ CRLF))"
| "call_of (Reply code label) = Read Socket"
| "call_of (SecureReply code label) = Read SecureSocket"
| "call_of SecureReplyAny = Read SecureSocket"

fun exec :: "world \<Rightarrow> step \<Rightarrow> unit io" where
  "exec w (Probe c) =
     try_catch (perform w c)
       (\<lambda>error. throw_io (Error (js ''SMTP server unreachable: '' @ text_of (message_of error))))"
| "exec w (Do c) = perform w c"
| "exec w (Attempt c) = try_catch (perform w c) (\<lambda>e. return_io ())"
| "exec w (Forget c) = try_catch (unawaited c) (\<lambda>e. return_io ())"
| "exec w (SendBase64 text) = bind_io (btoa w text) (\<lambda>encoded. sendSecureCommand w encoded)"
| "exec w (Reply code label) = expect (readResponse w) code label"
| "exec w (SecureReply code label) = expect (readSecureResponse w) code label"
| "exec w SecureReplyAny = bind_io (readSecureResponse w) (\<lambda>response. return_io ())"

definition send :: "socket \<Rightarrow> js_string \<Rightarrow> step" where
  "send s command = Do (Write s (encode (command @ CRLF)))"

definition steps :: "world \<Rightarrow> EmailConfig \<Rightarrow> SMTPConfig \<Rightarrow> step list" where
  "steps w emailConfig env =
     [Probe (Connect (smtp_host env) (smtp_port env) None),
      Probe (Opened TestSocket),
      Probe (Close TestSocket),
      Do (Connect (smtp_host env) (smtp_port env)
            (Some \<lparr>secureTransport = js ''starttls'', allowHalfOpen = False\<rparr>)),
      Do (Opened Socket),
      Do (GetWriter Socket),
      Do (GetReader Socket),
      Reply (js ''220'') (js ''SMTP server not ready''),
      send Socket (js ''EHLO '' @ smtp_host env),
      Reply (js ''250'') (js ''EHLO failed''),
      send Socket (js ''STARTTLS''),
      Reply (js ''220'') (js ''STARTTLS failed''),
      Attempt (ReleaseWriter Socket),
      Attempt (ReleaseReader Socket),
      Do StartTls,
      Do (Opened SecureSocket),
      Do (GetWriter SecureSocket),
      Do (GetReader SecureSocket),
      send SecureSocket (js ''EHLO '' @ smtp_host env),
      SecureReply (js ''250'') (js ''Secure EHLO failed''),
      send SecureSocket (js ''AUTH LOGIN''),
      SecureReply (js ''334'') (js ''AUTH LOGIN failed''),
      SendBase64 (smtp_username env),
      SecureReply (js ''334'') (js ''Username authentication failed''),
      SendBase64 (text_of (SMTP_PASSWORD env)),
      SecureReply (js ''235'') (js ''Password authentication failed''),
      send SecureSocket (js ''MAIL FROM:<'' @ from_email emailConfig env @ js ''>''),
      SecureReply (js ''250'') (js ''MAIL FROM failed''),
      send SecureSocket (js ''RCPT TO:<'' @ text_of (to emailConfig) @ js ''>''),
      SecureReply (js ''250'') (js ''RCPT TO failed''),
      send SecureSocket (js ''DATA''),
      SecureReply (js ''354'') (js ''DATA command failed''),
      send SecureSocket (emailMessage w emailConfig env),
      SecureReply (js ''250'') (js ''Email sending failed''),
      send SecureSocket (js ''QUIT''),
      SecureReplyAny,
      Attempt (CloseWriter SecureSocket),
      Forget (CancelReader SecureSocket),
      Attempt (Close SecureSocket)]"

text \<open>
  A driver for the table. \<open>ready s\<close>: step \<open>s\<close> gets as far as its platform call (only
  \<open>btoa\<close> can throw before it). \<open>passes s r\<close>: the reaction \<open>r\<close> to the call of step \<open>s\<close>
  lets the session go on to the next step. \<open>stop s r\<close>: how the session ends when it does
  not.
\<close>

fun ready :: "step \<Rightarrow> bool" where
  "ready (SendBase64 text) = latin1 text"
| "ready s = True"

fun passes :: "step \<Rightarrow> reaction \<Rightarrow> bool" where
  "passes (Probe c) r = (case r of Returns v \<Rightarrow> True | _ \<Rightarrow> False)"
| "passes (Do c) r = (case r of Returns v \<Rightarrow> True | _ \<Rightarrow> False)"
| "passes (Attempt c) r = (r \<noteq> Stalls)"
| "passes (Forget c) r = True"
| "passes (SendBase64 text) r = (case r of Returns v \<Rightarrow> True | _ \<Rightarrow> False)"
| "passes (Reply code label) r =
     (case r of Returns (Some chunk) \<Rightarrow> startsWith (trim chunk) code | _ \<Rightarrow> False)"
| "passes (SecureReply code label) r =
     (case r of Returns (Some chunk) \<Rightarrow> startsWith (trim chunk) code | _ \<Rightarrow> False)"
| "passes SecureReplyAny r = (case r of Returns (Some chunk) \<Rightarrow> True | _ \<Rightarrow> False)"

fun stop :: "step \<Rightarrow> reaction \<Rightarrow> unit outcome" where
  "stop s Stalls = Hang"
| "stop (Probe c) (Throws e) =
     Throw (Error (js ''SMTP server unreachable: '' @ text_of (message_of e)))"
| "stop s (Throws e) = Throw e"
| "stop (Reply code label) (Returns None) = Throw (Error (js ''No response from server''))"
| "stop (Reply code label) (Returns (Some chunk)) = Throw (Error (label @ js '': '' @ trim chunk))"
| "stop (SecureReply code label) (Returns None) = Throw (Error (js ''No secure response from server''))"
| "stop (SecureReply code label) (Returns (Some chunk)) =
     Throw (Error (label @ js '': '' @ trim chunk))"
| "stop SecureReplyAny (Returns v) = Throw (Error (js ''No secure response from server''))"
| "stop s (Returns v) = Value ()"

fun run :: "world \<Rightarrow> step list \<Rightarrow> unit io" where
  "run w [] tr = (Value (), tr)"
| "run w (s # ss) tr =
     (if \<not> ready s then (Throw (btoaError w), tr)
      else if passes s (react w (tr @ [call_of s]))
      then run w ss (tr @ [call_of s])
      else (stop s (react w (tr @ [call_of s])), tr @ [call_of s]))"

text \<open>The platform calls of a whole session, in order, numbered from 0.\<close>

definition session_calls :: "world \<Rightarrow> EmailConfig \<Rightarrow> SMTPConfig \<Rightarrow> call list" where
  "session_calls w emailConfig env =
     [Connect (smtp_host env) (smtp_port env) None,
      Opened TestSocket,
      Close TestSocket,
      Connect (smtp_host env) (smtp_port env)
        (Some \<lparr>secureTransport = js ''starttls'', allowHalfOpen = False\<rparr>),
      Opened Socket,
      GetWriter Socket,
      GetReader Socket,
      Read Socket,
      Write Socket (encode (js ''EHLO '' @ smtp_host env @ CRLF)),
      Read Socket,
      Write Socket (encode (js ''STARTTLS'' @ CRLF)),
      Read Socket,
      ReleaseWriter Socket,
      ReleaseReader Socket,
      StartTls,
      Opened SecureSocket,
      GetWriter SecureSocket,
      GetReader SecureSocket,
      Write SecureSocket (encode (js ''EHLO '' @ smtp_host env @ CRLF)),
      Read SecureSocket,
      Write SecureSocket (encode (js ''AUTH LOGIN'' @ CRLF)),
      Read SecureSocket,
      Write SecureSocket (encode (base64 (smtp_username env) @ CRLF)),
      Read SecureSocket,
      Write SecureSocket (encode (base64 (text_of (SMTP_PASSWORD env)) @ CRLF)),
      Read SecureSocket,
      Write SecureSocket (encode (js ''MAIL FROM:<'' @ from_email emailConfig env @ js ''>'' @ CRLF)),
      Read SecureSocket,
      Write SecureSocket (encode (js ''RCPT TO:<'' @ text_of (to emailConfig) @ js ''>'' @ CRLF)),
      Read SecureSocket,
      Write SecureSocket (encode (js ''DATA'' @ CRLF)),
      Read SecureSocket,
      Write SecureSocket (encode (emailMessage w emailConfig env @ CRLF)),
      Read SecureSocket,
      Write SecureSocket (encode (js ''QUIT'' @ CRLF)),
      Read SecureSocket,
      CloseWriter SecureSocket,
      CancelReader SecureSocket,
      Close SecureSocket]"

fun expected_code :: "step \<Rightarrow> js_string option" where
  "expected_code (Reply code label) = Some code"
| "expected_code (SecureReply code label) = Some code"
| "expected_code s = None"

section \<open>Results\<close>

definition parametersPresent :: "EmailConfig \<Rightarrow> SMTPConfig \<Rightarrow> bool" where
  "parametersPresent emailConfig env =
     (truthy (SMTP_PASSWORD env) \<and> smtp_username env \<noteq> [] \<and> truthy (to emailConfig)
      \<and> truthy (subject emailConfig) \<and> truthy (body emailConfig))"

definition sent :: "EmailConfig \<Rightarrow> result" where
  "sent emailConfig =
     \<lparr>success = True,
      message = Some (js ''Email sent successfully to '' @ text_of (to emailConfig)),
      error = None\<rparr>"

definition failed :: "js_string \<Rightarrow> result" where
  "failed text = \<lparr>success = False, message = None, error = Some text\<rparr>"

definition conclude :: "EmailConfig \<Rightarrow> unit outcome \<times> call list \<Rightarrow> result outcome \<times> call list" where
  "conclude emailConfig r =
     (case r of
        (Value u, tr) \<Rightarrow> (Value (sent emailConfig), tr)
      | (Throw e, tr) \<Rightarrow>
          (Value (failed (or_default (message_of e) (js ''Unknown error occurred''))), tr)
      | (Hang, tr) \<Rightarrow> (Hang, tr))"

section \<open>The header block of a payload\<close>

text \<open>
  Not a part of the worker: what the receiver of a payload reads as its header. A line
  ends at a CRLF; the header block is the lines before the first empty one (RFC 5322).
  \<open>split_crlf\<close> carries the line read so far. A value is \<open>single_line\<close> when it
  holds no carriage return and no line feed.
\<close>

fun split_crlf :: "js_string \<Rightarrow> js_string \<Rightarrow> js_string list" where
  "split_crlf line [] = [line]"
| "split_crlf line [c] = [line @ [c]]"
| "split_crlf line (c # d # cs) =
     (if c = 0x0D \<and> d = 0x0A then line # split_crlf [] cs
      else split_crlf (line @ [c]) (d # cs))"

definition header_lines :: "js_string \<Rightarrow> js_string list" where
  "header_lines payload = takeWhile (\<lambda>line. line \<noteq> []) (split_crlf [] payload)"

definition single_line :: "js_string \<Rightarrow> bool" where
  "single_line s = (0x0D \<notin> set s \<and> 0x0A \<notin> set s)"

section \<open>Simulated relays and example inputs\<close>

text \<open>
  A simulated relay answers the reads of a session with the given replies, in order (and
  with the end of the stream once they are used up), and every other call \<open>c\<close> with
  \<open>other c\<close>.
\<close>

fun is_read :: "call \<Rightarrow> bool" where
  "is_read (Read s) = True"
| "is_read c = False"

definition simulated_relay :: "js_string list \<Rightarrow> (call \<Rightarrow> reaction) \<Rightarrow> call list \<Rightarrow> reaction" where
  "simulated_relay replies other history =
     (case rev history of
        [] \<Rightarrow> Stalls
      | c # earlier \<Rightarrow>
          if is_read c
          then (let k = length (filter is_read earlier)
                in if k < length replies then Returns (Some (replies ! k)) else Returns None)
          else other c)"

fun accepts :: "step list \<Rightarrow> js_string list \<Rightarrow> bool" where
  "accepts [] replies = True"
| "accepts (Reply code label # ss) replies =
     (case replies of [] \<Rightarrow> False | r # rs \<Rightarrow> startsWith (trim r) code \<and> accepts ss rs)"
| "accepts (SecureReply code label # ss) replies =
     (case replies of [] \<Rightarrow> False | r # rs \<Rightarrow> startsWith (trim r) code \<and> accepts ss rs)"
| "accepts (SecureReplyAny # ss) replies =
     (case replies of [] \<Rightarrow> False | r # rs \<Rightarrow> accepts ss rs)"
| "accepts (s # ss) replies =
     (if is_read (call_of s) then accepts ss (tl replies) else accepts ss replies)"

definition relay_accepting :: world where
  "relay_accepting =
     \<lparr>react = simulated_relay
                [js ''220 relay ready'' @ CRLF, js ''250 hello'' @ CRLF, js ''220 go ahead'' @ CRLF,
                 js ''250 hello'' @ CRLF, js ''334 VXNlcm5hbWU6'' @ CRLF, js ''334 UGFzc3dvcmQ6'' @ CRLF,
                 js ''235 authenticated'' @ CRLF, js ''250 sender ok'' @ CRLF,
                 js ''250 recipient ok'' @ CRLF, js ''354 send data'' @ CRLF, js ''250 queued'' @ CRLF,
                 js ''221 bye'' @ CRLF]
                (\<lambda>c. Returns None),
      toUTCString = js ''Mon, 02 Nov 2026 09:00:00 GMT'',
      now = 1793610000000,
      btoaError = Error (js ''Invalid character'')\<rparr>"

definition relay_rejecting_ehlo :: world where
  "relay_rejecting_ehlo =
     \<lparr>react = simulated_relay [js ''220 relay ready'' @ CRLF, js ''500 error''] (\<lambda>c. Returns None),
      toUTCString = js ''Mon, 02 Nov 2026 09:00:00 GMT'',
      now = 1793610000000,
      btoaError = Error (js ''Invalid character'')\<rparr>"

definition message_ab :: EmailConfig where
  "message_ab = \<lparr>to = Some (js ''a@b.com''), subject = Some (js ''S''), body = Some (js ''B''),
                  isHtml = None, from' = None\<rparr>"

definition env_example :: SMTPConfig where
  "env_example = \<lparr>SMTP_HOST = Some (js ''smtp.example.com''), SMTP_PORT = Some (js ''587''),
                   SMTP_USERNAME = Some (js ''user@example.com''), SMTP_PASSWORD = Some (js ''secret''),
                   TO_EMAIL = None, AUTH_CODE = Some (js ''code'')\<rparr>"

definition env_without_password :: SMTPConfig where
  "env_without_password = env_example\<lparr>SMTP_PASSWORD := None\<rparr>"

definition relay_failing_teardown :: world where
  "relay_failing_teardown =
     \<lparr>react = simulated_relay
                [js ''220 relay ready'' @ CRLF, js ''250 hello'' @ CRLF, js ''220 go ahead'' @ CRLF,
                 js ''250 hello'' @ CRLF, js ''334 VXNlcm5hbWU6'' @ CRLF, js ''334 UGFzc3dvcmQ6'' @ CRLF,
                 js ''235 authenticated'' @ CRLF, js ''250 sender ok'' @ CRLF,
                 js ''250 recipient ok'' @ CRLF, js ''354 send data'' @ CRLF, js ''250 queued'' @ CRLF,
                 js ''221 bye'' @ CRLF]
                (\<lambda>c. if c = CloseWriter SecureSocket \<or> c = Close SecureSocket
                     then Throws (Error (js ''stream closed'')) else Returns None),
      toUTCString = js ''Mon, 02 Nov 2026 09:00:00 GMT'',
      now = 1793610000000,
      btoaError = Error (js ''Invalid character'')\<rparr>"


definition message_two_content_types :: EmailConfig where
  "message_two_content_types =
     \<lparr>to = Some (js ''a@b.com''),
      subject = Some (js ''S'' @ CRLF @ js ''Content-Type: text/plain; charset=UTF-8''),
      body = Some (js ''B''),
      isHtml = Some True, from' = None\<rparr>"

definition env_euro_password :: SMTPConfig where
  "env_euro_password = env_example\<lparr>SMTP_PASSWORD := Some [0x70, 0x20AC]\<rparr>"

definition message_dotted :: EmailConfig where
  "message_dotted = \<lparr>to = Some (js ''a@b.com''), subject = Some (js ''S''), body = Some (js ''.hidden''),
                      isHtml = Some False, from' = None\<rparr>"

definition env_defaults :: SMTPConfig where
  "env_defaults = \<lparr>SMTP_HOST = None, SMTP_PORT = None,
                    SMTP_USERNAME = Some (js ''user@example.com''), SMTP_PASSWORD = Some (js ''secret''),
                    TO_EMAIL = None, AUTH_CODE = Some (js ''code'')\<rparr>"

section \<open>Literals\<close>

lemma js_Nil [simp]: "js [] = []"
  by (simp add: js_def)

lemma js_eq_Nil [simp]: "js s = [] \<longleftrightarrow> s = []"
  by (simp add: js_def)

lemma js_append: "js (a @ b) = js a @ js b"
  by (simp add: js_def)

lemma js_latin1: "latin1 (js s)"
proof -
  have "of_char c \<le> (0xFF :: nat)" for c
  proof -
    have "of_char c < (256 :: nat)" by simp
    then show ?thesis by linarith
  qed
  then show ?thesis by (simp add: latin1_def js_def list_all_iff)
qed

section \<open>The table is the worker\<close>

lemmas io_defs = return_io_def throw_io_def bind_io_def try_catch_def await_def perform_def
  unawaited_def expect_def readResponse_def readSecureResponse_def btoa_def sendSecureCommand_def

lemma bind_return [simp]: "bind_io (return_io a) f = f a"
  by (simp add: bind_io_def return_io_def)

lemma bind_assoc: "bind_io (bind_io m f) g = bind_io m (\<lambda>a. bind_io (f a) g)"
  by (rule ext) (simp add: bind_io_def split: prod.splits outcome.splits)

lemma bind_unit_return [simp]: "bind_io (m :: unit io) (\<lambda>_. return_io ()) = m"
  by (rule ext) (simp add: bind_io_def return_io_def split: prod.splits outcome.splits)

lemma try_catch_rethrow:
  "try_catch (bind_io m f) (\<lambda>e. throw_io (h e))
   = bind_io (try_catch m (\<lambda>e. throw_io (h e))) (\<lambda>a. try_catch (f a) (\<lambda>e. throw_io (h e)))"
  by (rule ext) (simp add: bind_io_def try_catch_def throw_io_def split: prod.splits outcome.splits)

lemma try_catch_return [simp]: "try_catch (return_io a) h = return_io a"
  by (rule ext) (simp add: try_catch_def return_io_def)

lemma checkReachability_steps:
  "checkReachability w env =
     block (map (exec w) [Probe (Connect (smtp_host env) (smtp_port env) None),
                          Probe (Opened TestSocket), Probe (Close TestSocket)])"
  by (simp add: checkReachability_def try_catch_rethrow)

lemma session_steps:
  "session w emailConfig env =
     bind_io (checkParameters emailConfig env)
       (\<lambda>_. block (map (exec w) (steps w emailConfig env)))"
  unfolding session_def steps_def checkReachability_steps openConnection_def greeting_def ehlo_def
    upgradeToTls_def secureEhlo_def authenticate_def sendMail_def quit_def closeConnection_def
  by (simp add: bind_assoc send_def sendCommand_def sendSecureCommand_def
      SMTP_READY_def SMTP_OK_def SMTP_AUTH_SUCCESS_def SMTP_START_INPUT_def SMTP_AUTH_CONTINUE_def)

lemma exec_run:
  "exec w s tr =
     (if \<not> ready s then (Throw (btoaError w), tr)
      else if passes s (react w (tr @ [call_of s])) then (Value (), tr @ [call_of s])
      else (stop s (react w (tr @ [call_of s])), tr @ [call_of s]))"
  by (cases s) (simp_all add: io_defs split: reaction.splits option.splits)

lemma stop_no_value: "\<not> passes s r \<Longrightarrow> stop s r \<noteq> Value u"
  by (cases "(s, r)" rule: stop.cases) auto

lemma block_exec: "block (map (exec w) ss) tr = run w ss tr"
proof (induction ss arbitrary: tr)
  case Nil
  show ?case by (simp add: return_io_def)
next
  case (Cons s ss)
  show ?case
  proof (cases "ready s")
    case False
    then show ?thesis by (simp add: bind_io_def exec_run [of w s tr])
  next
    case ready: True
    show ?thesis
    proof (cases "passes s (react w (tr @ [call_of s]))")
      case True
      then show ?thesis
        using ready by (simp add: bind_io_def exec_run [of w s tr] Cons.IH)
    next
      case False
      then show ?thesis
        using ready stop_no_value [OF False, of "()"]
        by (cases "stop s (react w (tr @ [call_of s]))")
           (simp_all add: bind_io_def exec_run [of w s tr])
    qed
  qed
qed

lemma sendEmail_run:
  "parametersPresent emailConfig env \<Longrightarrow>
   sendEmail w emailConfig env = conclude emailConfig (run w (steps w emailConfig env) [])"
  by (simp add: sendEmail_def session_steps checkParameters_def parametersPresent_def block_exec
      conclude_def sent_def failed_def try_catch_def bind_io_def return_io_def
      split: prod.splits outcome.splits)

lemma sendEmail_absent:
  "\<not> parametersPresent emailConfig env \<Longrightarrow>
   sendEmail w emailConfig env =
     (Value (failed
        (if \<not> truthy (SMTP_PASSWORD env)
         then js ''SMTP_PASSWORD environment variable is not set''
         else if \<not> truthy (SMTP_USERNAME env)
         then js ''SMTP_USERNAME environment variable is not set''
         else js ''Missing required email parameters: to, subject, and body are required'')), [])"
  by (auto simp add: sendEmail_def session_steps checkParameters_def parametersPresent_def
      failed_def try_catch_def bind_io_def return_io_def throw_io_def message_of_def
      or_default_def smtp_username_def truthy_def split: option.splits)

section \<open>Runs of the table\<close>

lemma steps_calls: "map call_of (steps w emailConfig env) = session_calls w emailConfig env"
  by (simp add: steps_def session_calls_def send_def)

lemma length_steps: "length (steps w emailConfig env) = 39"
  by (simp add: steps_def)

lemma length_session_calls: "length (session_calls w emailConfig env) = 39"
  by (simp add: session_calls_def)

lemma snd_conclude: "snd (conclude emailConfig r) = snd r"
  by (simp add: conclude_def split: prod.splits outcome.splits)

lemma run_prefix: "prefix (snd (run w ss tr)) (tr @ map call_of ss)"
proof (induction ss arbitrary: tr)
  case Nil
  show ?case by simp
next
  case (Cons s ss)
  show ?case
    using Cons.IH [of "tr @ [call_of s]"] by simp
qed

lemma run_extends: "prefix tr (snd (run w ss tr))"
proof (induction ss arbitrary: tr)
  case Nil
  show ?case by simp
next
  case (Cons s ss)
  show ?case
    using Cons.IH [of "tr @ [call_of s]"] by (auto dest: append_prefixD)
qed

lemma run_reached:
  assumes "n < length ss" and "length tr + n < length (snd (run w ss tr))"
  shows "run w ss tr =
           (if passes (ss ! n) (react w (tr @ take (Suc n) (map call_of ss)))
            then run w (drop (Suc n) ss) (tr @ take (Suc n) (map call_of ss))
            else (stop (ss ! n) (react w (tr @ take (Suc n) (map call_of ss))),
                  tr @ take (Suc n) (map call_of ss)))"
  using assms
proof (induction ss arbitrary: n tr)
  case Nil
  then show ?case by simp
next
  case (Cons s ss)
  have ready: "ready s"
  proof (rule ccontr)
    assume "\<not> ready s"
    then show False using Cons.prems(2) by simp
  qed
  show ?case
  proof (cases n)
    case 0
    then show ?thesis using ready by simp
  next
    case (Suc m)
    show ?thesis
    proof (cases "passes s (react w (tr @ [call_of s]))")
      case True
      have "m < length ss" using Cons.prems(1) Suc by simp
      moreover have "length (tr @ [call_of s]) + m < length (snd (run w ss (tr @ [call_of s])))"
        using Cons.prems(2) Suc True ready by simp
      ultimately show ?thesis
        using Cons.IH [of m "tr @ [call_of s]"] Suc True ready by simp
    next
      case False
      then show ?thesis using Cons.prems(2) Suc ready by simp
    qed
  qed
qed

lemma run_ready:
  assumes "n < length ss" and "length tr + n < length (snd (run w ss tr))"
  shows "ready (ss ! n)"
  using assms
proof (induction ss arbitrary: n tr)
  case Nil
  then show ?case by simp
next
  case (Cons s ss)
  have ready: "ready s"
  proof (rule ccontr)
    assume "\<not> ready s"
    then show False using Cons.prems(2) by simp
  qed
  show ?case
  proof (cases n)
    case 0
    then show ?thesis using ready by simp
  next
    case (Suc m)
    show ?thesis
    proof (cases "passes s (react w (tr @ [call_of s]))")
      case True
      have "m < length ss" using Cons.prems(1) Suc by simp
      moreover have "length (tr @ [call_of s]) + m < length (snd (run w ss (tr @ [call_of s])))"
        using Cons.prems(2) Suc True ready by simp
      ultimately show ?thesis
        using Cons.IH [of m "tr @ [call_of s]"] Suc by simp
    next
      case False
      then show ?thesis using Cons.prems(2) Suc ready by simp
    qed
  qed
qed

lemma run_next:
  assumes "ss \<noteq> []"
  shows "run w ss tr =
           (if \<not> ready (hd ss) then (Throw (btoaError w), tr)
            else if passes (hd ss) (react w (tr @ [call_of (hd ss)]))
            then run w (tl ss) (tr @ [call_of (hd ss)])
            else (stop (hd ss) (react w (tr @ [call_of (hd ss)])), tr @ [call_of (hd ss)]))"
  using assms by (cases ss) simp_all

lemma trace_prefix:
  "prefix (snd (sendEmail w emailConfig env)) (session_calls w emailConfig env)"
proof (cases "parametersPresent emailConfig env")
  case True
  then show ?thesis
    using run_prefix [of w "steps w emailConfig env" "[]"]
    by (simp add: sendEmail_run snd_conclude steps_calls)
next
  case False
  then show ?thesis
    by (simp add: sendEmail_absent)
qed

lemma prefix_take: "prefix xs ys \<Longrightarrow> n \<le> length xs \<Longrightarrow> take n ys = take n xs"
  by (auto simp add: prefix_def)

lemma sendEmail_reached:
  assumes "n < length (snd (sendEmail w emailConfig env))"
  shows "sendEmail w emailConfig env =
           conclude emailConfig
             (if passes (steps w emailConfig env ! n)
                   (react w (take (Suc n) (session_calls w emailConfig env)))
              then run w (drop (Suc n) (steps w emailConfig env))
                     (take (Suc n) (session_calls w emailConfig env))
              else (stop (steps w emailConfig env ! n)
                      (react w (take (Suc n) (session_calls w emailConfig env))),
                    take (Suc n) (session_calls w emailConfig env)))"
proof -
  have present: "parametersPresent emailConfig env"
  proof (rule ccontr)
    assume "\<not> parametersPresent emailConfig env"
    then show False using assms by (simp add: sendEmail_absent)
  qed
  have "length (snd (sendEmail w emailConfig env)) \<le> 39"
    using trace_prefix [of w emailConfig env] prefix_length_le length_session_calls
    by metis
  then have n: "n < length (steps w emailConfig env)"
    using assms by (simp add: length_steps)
  have "length [] + n < length (snd (run w (steps w emailConfig env) []))"
    using assms by (simp add: sendEmail_run [OF present] snd_conclude)
  from run_reached [OF n this] show ?thesis
    by (simp add: sendEmail_run [OF present] steps_calls)
qed

lemma checked_steps:
  "filter (\<lambda>(n, s). expected_code s \<noteq> None) (enumerate 0 (steps w emailConfig env)) =
     [(7, Reply (js ''220'') (js ''SMTP server not ready'')),
      (9, Reply (js ''250'') (js ''EHLO failed'')),
      (11, Reply (js ''220'') (js ''STARTTLS failed'')),
      (19, SecureReply (js ''250'') (js ''Secure EHLO failed'')),
      (21, SecureReply (js ''334'') (js ''AUTH LOGIN failed'')),
      (23, SecureReply (js ''334'') (js ''Username authentication failed'')),
      (25, SecureReply (js ''235'') (js ''Password authentication failed'')),
      (27, SecureReply (js ''250'') (js ''MAIL FROM failed'')),
      (29, SecureReply (js ''250'') (js ''RCPT TO failed'')),
      (31, SecureReply (js ''354'') (js ''DATA command failed'')),
      (33, SecureReply (js ''250'') (js ''Email sending failed''))]"
  by (simp add: steps_def send_def)

lemma conclude_error:
  "text \<noteq> [] \<Longrightarrow> conclude emailConfig (Throw (Error text), tr) = (Value (failed text), tr)"
  by (simp add: conclude_def message_of_def or_default_def)

section \<open>Runs against a simulated relay\<close>

lemma simulated_relay_snoc:
  "simulated_relay replies other (tr @ [c]) =
     (if is_read c
      then (let k = length (filter is_read tr)
            in if k < length replies then Returns (Some (replies ! k)) else Returns None)
      else other c)"
  by (simp add: simulated_relay_def rev_filter [symmetric])

lemma drop_eq_Cons:
  assumes "drop k xs = y # ys"
  shows "k < length xs \<and> xs ! k = y"
proof -
  have k: "k < length xs" using assms by (cases "k < length xs") simp_all
  moreover have "xs ! k = y" using assms k by (metis hd_drop_conv_nth list.sel(1))
  ultimately show ?thesis by simp
qed

lemma accepted_run:
  assumes relay: "react w = simulated_relay replies other"
  shows "list_all ready ss \<Longrightarrow>
         list_all (\<lambda>s. is_read (call_of s) \<or> passes s (other (call_of s))) ss \<Longrightarrow>
         accepts ss (drop (length (filter is_read tr)) replies) \<Longrightarrow>
         run w ss tr = (Value (), tr @ map call_of ss)"
proof (induction ss arbitrary: tr)
  case Nil
  show ?case by simp
next
  case (Cons s ss)
  let ?k = "length (filter is_read tr)"
  have suc: "drop (Suc ?k) replies = tl (drop ?k replies)"
    by (simp add: drop_Suc tl_drop)
  have "accepts ss (drop (length (filter is_read (tr @ [call_of s]))) replies)"
    using Cons.prems(3) by (cases s) (auto simp add: suc split: list.splits if_splits)
  moreover have "list_all ready ss"
    and "list_all (\<lambda>s. is_read (call_of s) \<or> passes s (other (call_of s))) ss"
    using Cons.prems(1,2) by simp_all
  ultimately have "run w ss (tr @ [call_of s]) = (Value (), (tr @ [call_of s]) @ map call_of ss)"
    by (intro Cons.IH)
  moreover have "passes s (react w (tr @ [call_of s]))"
    using Cons.prems(2,3)
    by (cases s)
       (auto simp add: relay simulated_relay_snoc Let_def split: list.splits dest: drop_eq_Cons)
  moreover have "ready s" using Cons.prems(1) by simp
  ultimately show ?case by simp
qed

lemma returning_passes:
  assumes "\<forall>c. \<exists>v. other c = Returns v"
  shows "list_all (\<lambda>s. is_read (call_of s) \<or> passes s (other (call_of s))) ss"
proof -
  have "is_read (call_of s) \<or> passes s (other (call_of s))" for s
    using assms [rule_format, of "call_of s"] by (cases s) auto
  then show ?thesis by (simp add: list_all_iff)
qed

lemma accepts_steps:
  "accepts (steps w emailConfig env) [r1, r2, r3, r4, r5, r6, r7, r8, r9, r10, r11, r12] \<longleftrightarrow>
     startsWith (trim r1) (js ''220'') \<and> startsWith (trim r2) (js ''250'') \<and> startsWith (trim r3) (js ''220'') \<and>
     startsWith (trim r4) (js ''250'') \<and> startsWith (trim r5) (js ''334'') \<and> startsWith (trim r6) (js ''334'') \<and>
     startsWith (trim r7) (js ''235'') \<and> startsWith (trim r8) (js ''250'') \<and> startsWith (trim r9) (js ''250'') \<and>
     startsWith (trim r10) (js ''354'') \<and> startsWith (trim r11) (js ''250'')"
  by (simp add: steps_def send_def)

lemma ready_steps:
  "list_all ready (steps w emailConfig env) \<longleftrightarrow>
     latin1 (smtp_username env) \<and> latin1 (text_of (SMTP_PASSWORD env))"
  by (simp add: steps_def send_def)

lemma below_39:
  "n < 39 \<Longrightarrow>
   n \<in> set [0, 1, 2, 3, 4, 5, 6, 7, 8, 9, 10, 11, 12, 13, 14, 15, 16, 17, 18, 19, 20, 21, 22, 23,
              24, 25, 26, 27, 28, 29, 30, 31, 32, 33, 34, 35, 36, 37, 38 :: nat]"
  by (simp only: list.set) (simp; arith)

lemma ready_step:
  assumes "n < 39"
  shows "ready (steps w emailConfig env ! n) \<longleftrightarrow>
           (n = 22 \<longrightarrow> latin1 (smtp_username env)) \<and>
           (n = 24 \<longrightarrow> latin1 (text_of (SMTP_PASSWORD env)))"
  using below_39 [OF assms] by (auto simp add: steps_def send_def)

lemma accepts_steps_24:
  "accepts (take 24 (steps w emailConfig env)) [r1, r2, r3, r4, r5, r6, r7, r8, r9, r10, r11, r12] \<longleftrightarrow>
     startsWith (trim r1) (js ''220'') \<and> startsWith (trim r2) (js ''250'') \<and> startsWith (trim r3) (js ''220'') \<and>
     startsWith (trim r4) (js ''250'') \<and> startsWith (trim r5) (js ''334'') \<and> startsWith (trim r6) (js ''334'')"
  by (simp add: steps_def send_def)

lemma ready_steps_24:
  "list_all ready (take 24 (steps w emailConfig env)) \<longleftrightarrow> latin1 (smtp_username env)"
  by (simp add: steps_def send_def)

lemma run_append:
  "run w (a @ b) tr = (case run w a tr of (Value u, tr') \<Rightarrow> run w b tr' | r \<Rightarrow> r)"
proof (induction a arbitrary: tr)
  case Nil
  show ?case by simp
next
  case (Cons s a)
  show ?case
  proof (cases "ready s")
    case False
    then show ?thesis by simp
  next
    case ready: True
    show ?thesis
    proof (cases "passes s (react w (tr @ [call_of s]))")
      case True
      then show ?thesis using ready Cons.IH by simp
    next
      case False
      then show ?thesis
        using ready stop_no_value [OF False, of "()"]
        by (cases "stop s (react w (tr @ [call_of s]))") simp_all
    qed
  qed
qed

section \<open>The example inputs\<close>

lemma example_present: "parametersPresent message_ab env_example"
  by (simp add: parametersPresent_def message_ab_def env_example_def truthy_def smtp_username_def
      or_default_def)

lemma example_ready: "list_all ready (steps w emailConfig env_example)"
  by (simp add: ready_steps env_example_def smtp_username_def or_default_def text_of_def js_latin1)

lemma starts_examples:
  "startsWith (trim (js ''220 relay ready'' @ CRLF)) (js ''220'')"
  "startsWith (trim (js ''250 hello'' @ CRLF)) (js ''250'')"
  "startsWith (trim (js ''220 go ahead'' @ CRLF)) (js ''220'')"
  "startsWith (trim (js ''334 VXNlcm5hbWU6'' @ CRLF)) (js ''334'')"
  "startsWith (trim (js ''334 UGFzc3dvcmQ6'' @ CRLF)) (js ''334'')"
  "startsWith (trim (js ''235 authenticated'' @ CRLF)) (js ''235'')"
  "startsWith (trim (js ''250 sender ok'' @ CRLF)) (js ''250'')"
  "startsWith (trim (js ''250 recipient ok'' @ CRLF)) (js ''250'')"
  "startsWith (trim (js ''354 send data'' @ CRLF)) (js ''354'')"
  "startsWith (trim (js ''250 queued'' @ CRLF)) (js ''250'')"
  by (simp_all add: startsWith_def trim_def isWhiteSpace_def js_def CRLF_def)

lemma example_react:
  "react relay_accepting =
     simulated_relay
       [js ''220 relay ready'' @ CRLF, js ''250 hello'' @ CRLF, js ''220 go ahead'' @ CRLF,
        js ''250 hello'' @ CRLF, js ''334 VXNlcm5hbWU6'' @ CRLF, js ''334 UGFzc3dvcmQ6'' @ CRLF,
        js ''235 authenticated'' @ CRLF, js ''250 sender ok'' @ CRLF,
        js ''250 recipient ok'' @ CRLF, js ''354 send data'' @ CRLF, js ''250 queued'' @ CRLF,
        js ''221 bye'' @ CRLF]
       (\<lambda>c. Returns None)"
  by (simp add: relay_accepting_def)

lemma accepting_run:
  assumes "react w = react relay_accepting" and "parametersPresent emailConfig env"
    and "list_all ready (steps w emailConfig env)"
  shows "sendEmail w emailConfig env = (Value (sent emailConfig), session_calls w emailConfig env)"
proof -
  have "react w =
     simulated_relay
       [js ''220 relay ready'' @ CRLF, js ''250 hello'' @ CRLF, js ''220 go ahead'' @ CRLF,
        js ''250 hello'' @ CRLF, js ''334 VXNlcm5hbWU6'' @ CRLF, js ''334 UGFzc3dvcmQ6'' @ CRLF,
        js ''235 authenticated'' @ CRLF, js ''250 sender ok'' @ CRLF,
        js ''250 recipient ok'' @ CRLF, js ''354 send data'' @ CRLF, js ''250 queued'' @ CRLF,
        js ''221 bye'' @ CRLF]
       (\<lambda>c. Returns None)"
    using assms(1) example_react by simp
  then have "run w (steps w emailConfig env) [] =
          (Value (), [] @ map call_of (steps w emailConfig env))"
    by (rule accepted_run)
       (rule assms(3), rule returning_passes, simp,
        simp only: list.size filter.simps drop_0 accepts_steps, intro conjI starts_examples)
  then show ?thesis
    by (simp add: sendEmail_run [OF assms(2)] conclude_def steps_calls)
qed

lemma example_run:
  "sendEmail relay_accepting message_ab env_example =
     (Value (sent message_ab), session_calls relay_accepting message_ab env_example)"
  by (rule accepting_run [OF refl example_present example_ready])

section \<open>Strings\<close>



lemma trim_sublist: "sublist (trim s) s"
proof -
  let ?t = "dropWhile isWhiteSpace s"
  have "suffix (dropWhile isWhiteSpace (rev ?t)) (rev ?t)"
    by (rule suffix_dropWhile)
  then have "prefix (trim s) ?t"
    by (simp add: trim_def suffix_to_prefix)
  moreover have "suffix ?t s"
    by (rule suffix_dropWhile)
  ultimately show ?thesis
    by (meson prefix_imp_sublist suffix_imp_sublist sublist_order.order_trans)
qed



lemma emailMessage_parts:
  "emailMessage w emailConfig env =
     join (emailHeaders w emailConfig env) CRLF @ CRLF @ CRLF @ text_of (body emailConfig)
       @ CRLF @ js ''.''"
  by (simp add: emailMessage_def emailHeaders_def)

lemma sublist_join: "h \<in> set hs \<Longrightarrow> sublist h (join hs sep)"
proof (induction hs sep rule: join.induct)
  case (1 sep)
  then show ?case by simp
next
  case (2 x sep)
  then show ?case by simp
next
  case (3 x y ys sep)
  show ?case
  proof (cases "h = x")
    case True
    then show ?thesis by simp
  next
    case False
    then have "sublist h (join (y # ys) sep)" using 3 by simp
    then show ?thesis
      by (metis append.assoc join.simps(3) sublist_append_leftI sublist_order.order_trans)
  qed
qed

lemma sublist_within: "sublist a b \<Longrightarrow> sublist a (p @ b @ s)"
  by (metis sublist_appendI sublist_order.order_trans)



lemma digits_range: "c \<in> set (digits n) \<Longrightarrow> 48 \<le> c \<and> c \<le> 57"
proof (induction n rule: digits.induct)
  case (1 n)
  show ?case
  proof (cases "n < 10")
    case True
    then show ?thesis using 1(2) by (subst (asm) digits.simps) simp
  next
    case False
    have "c \<in> set (digits (n div 10)) \<or> c = 48 + n mod 10"
      using 1(2) False by (subst (asm) digits.simps) auto
    then show ?thesis
      using 1(1) [OF False] by auto
  qed
qed


lemma digits_not_Nil: "digits n \<noteq> []"
  by (subst digits.simps) simp


lemma port_587: "parseInt (js ''587'') = Some 587"
  by (simp add: parseInt_def isWhiteSpace_def startsWith_def digitValue_def js_def)

section \<open>More on runs\<close>

lemma run_value:
  "fst (run w ss tr) = Value u \<Longrightarrow> snd (run w ss tr) = tr @ map call_of ss"
proof (induction ss arbitrary: tr)
  case Nil
  show ?case by simp
next
  case (Cons s ss)
  show ?case
  proof (cases "ready s")
    case False
    then show ?thesis using Cons.prems by simp
  next
    case ready: True
    show ?thesis
    proof (cases "passes s (react w (tr @ [call_of s]))")
      case True
      then show ?thesis using Cons ready by simp
    next
      case False
      then show ?thesis using Cons.prems ready stop_no_value [OF False, of u] by simp
    qed
  qed
qed

lemma run_all_passed:
  assumes "list_all ready ss"
    and "\<forall>n<length ss. passes (ss ! n) (react w (tr @ take (Suc n) (map call_of ss)))"
  shows "run w ss tr = (Value (), tr @ map call_of ss)"
  using assms
proof (induction ss arbitrary: tr)
  case Nil
  show ?case by simp
next
  case (Cons s ss)
  have first: "passes s (react w (tr @ [call_of s]))"
    using Cons.prems(2) by (auto dest: spec [of _ 0])
  have rest: "\<forall>n<length ss. passes (ss ! n)
                (react w ((tr @ [call_of s]) @ take (Suc n) (map call_of ss)))"
  proof (intro allI impI)
    fix n
    assume "n < length ss"
    then show "passes (ss ! n) (react w ((tr @ [call_of s]) @ take (Suc n) (map call_of ss)))"
      using Cons.prems(2) by (auto dest: spec [of _ "Suc n"])
  qed
  have "run w ss (tr @ [call_of s]) = (Value (), (tr @ [call_of s]) @ map call_of ss)"
    using Cons.prems(1) rest by (intro Cons.IH) simp_all
  then show ?case using first Cons.prems(1) by simp
qed


lemma present_of_trace:
  assumes "snd (sendEmail w emailConfig env) \<noteq> []"
  shows "parametersPresent emailConfig env"
proof (rule ccontr)
  assume "\<not> parametersPresent emailConfig env"
  then show False using assms by (simp add: sendEmail_absent)
qed

lemma success_present:
  assumes "fst (sendEmail w emailConfig env) = Value r" and "success r"
  shows "parametersPresent emailConfig env"
proof (rule ccontr)
  assume "\<not> parametersPresent emailConfig env"
  then show False using assms by (auto simp add: sendEmail_absent failed_def)
qed

lemma success_complete:
  assumes "fst (sendEmail w emailConfig env) = Value r" and "success r"
  shows "snd (sendEmail w emailConfig env) = session_calls w emailConfig env"
proof -
  have present: "parametersPresent emailConfig env"
    using assms by (rule success_present)
  obtain out tr where run: "run w (steps w emailConfig env) [] = (out, tr)"
    by (cases "run w (steps w emailConfig env) []")
  have "out = Value ()"
    using assms by (cases out) (auto simp add: sendEmail_run [OF present] run conclude_def failed_def)
  then have "tr = map call_of (steps w emailConfig env)"
    using run_value [of w "steps w emailConfig env" "[]" "()"] run by simp
  then show ?thesis
    by (simp add: sendEmail_run [OF present] run snd_conclude steps_calls)
qed

lemma nth_of_trace:
  assumes "n < length (snd (sendEmail w emailConfig env))"
  shows "snd (sendEmail w emailConfig env) ! n = session_calls w emailConfig env ! n"
proof -
  obtain rest where "session_calls w emailConfig env = snd (sendEmail w emailConfig env) @ rest"
    using trace_prefix [of w emailConfig env] by (auto simp add: prefix_def)
  then show ?thesis using assms by (simp add: nth_append)
qed

lemma trace_ready:
  assumes "n < length (snd (sendEmail w emailConfig env))"
  shows "ready (steps w emailConfig env ! n)"
proof -
  have "snd (sendEmail w emailConfig env) \<noteq> []"
    using assms by auto
  then have present: "parametersPresent emailConfig env"
    by (rule present_of_trace)
  have "length (snd (sendEmail w emailConfig env)) \<le> 39"
    using trace_prefix [of w emailConfig env] prefix_length_le length_session_calls
    by metis
  then have n: "n < length (steps w emailConfig env)"
    using assms by (simp add: length_steps)
  have "length [] + n < length (snd (run w (steps w emailConfig env) []))"
    using assms by (simp add: sendEmail_run [OF present] snd_conclude)
  from run_ready [OF n this] show ?thesis .
qed

lemma first_call:
  assumes "parametersPresent emailConfig env"
  shows "0 < length (snd (sendEmail w emailConfig env))"
proof -
  let ?ss = "steps w emailConfig env"
  have ne: "?ss \<noteq> []"
    by (simp add: steps_def)
  have hd: "hd ?ss = Probe (Connect (smtp_host env) (smtp_port env) None)"
    by (simp add: steps_def)
  have "prefix [call_of (hd ?ss)] (snd (run w ?ss []))"
    using run_extends [of "[call_of (hd ?ss)]" w "tl ?ss"]
    by (subst run_next [OF ne]) (simp add: hd)
  then have "length [call_of (hd ?ss)] \<le> length (snd (run w ?ss []))"
    by (rule prefix_length_le)
  then have "snd (run w ?ss []) \<noteq> []"
    by auto
  then show ?thesis
    by (simp add: sendEmail_run [OF assms] snd_conclude)
qed

lemma next_call:
  assumes n: "n < length (snd (sendEmail w emailConfig env))"
    and pass: "passes (steps w emailConfig env ! n)
                 (react w (take (Suc n) (session_calls w emailConfig env)))"
    and more: "Suc n < 39"
  shows "ready (steps w emailConfig env ! Suc n) \<Longrightarrow>
           Suc n < length (snd (sendEmail w emailConfig env))"
    and "\<not> ready (steps w emailConfig env ! Suc n) \<Longrightarrow>
           sendEmail w emailConfig env =
             conclude emailConfig (Throw (btoaError w), take (Suc n) (session_calls w emailConfig env))"
proof -
  let ?ss = "steps w emailConfig env"
  let ?tr = "take (Suc n) (session_calls w emailConfig env)"
  have eq: "sendEmail w emailConfig env = conclude emailConfig (run w (drop (Suc n) ?ss) ?tr)"
    using pass by (subst sendEmail_reached [OF n]) simp
  have ne: "drop (Suc n) ?ss \<noteq> []"
    using more by (simp add: length_steps)
  have hd: "hd (drop (Suc n) ?ss) = ?ss ! Suc n"
    using more by (simp add: hd_drop_conv_nth length_steps)
  have len: "length ?tr = Suc n"
    using more by (simp add: length_session_calls)
  {
    assume ready: "ready (?ss ! Suc n)"
    have "prefix (?tr @ [call_of (?ss ! Suc n)]) (snd (run w (drop (Suc n) ?ss) ?tr))"
      using ready run_extends [of "?tr @ [call_of (?ss ! Suc n)]" w "tl (drop (Suc n) ?ss)"]
      by (subst run_next [OF ne]) (simp add: hd)
    then have "length (?tr @ [call_of (?ss ! Suc n)]) \<le> length (snd (run w (drop (Suc n) ?ss) ?tr))"
      by (rule prefix_length_le)
    then show "Suc n < length (snd (sendEmail w emailConfig env))"
      using len by (simp add: eq snd_conclude)
  }
  {
    assume "\<not> ready (?ss ! Suc n)"
    then have "run w (drop (Suc n) ?ss) ?tr = (Throw (btoaError w), ?tr)"
      by (subst run_next [OF ne]) (simp add: hd)
    then show "sendEmail w emailConfig env = conclude emailConfig (Throw (btoaError w), ?tr)"
      by (simp add: eq)
  }
qed

lemma all_passed:
  assumes "parametersPresent emailConfig env"
    and "list_all ready (steps w emailConfig env)"
    and "\<forall>n<39. passes (steps w emailConfig env ! n)
                   (react w (take (Suc n) (session_calls w emailConfig env)))"
  shows "sendEmail w emailConfig env = (Value (sent emailConfig), session_calls w emailConfig env)"
proof -
  have "run w (steps w emailConfig env) [] = (Value (), [] @ map call_of (steps w emailConfig env))"
    using assms(2,3) by (intro run_all_passed) (simp_all add: length_steps steps_calls)
  then show ?thesis
    by (simp add: sendEmail_run [OF assms(1)] conclude_def steps_calls)
qed

lemma set_dropWhile_prefix:
  assumes "prefix xs ys"
  shows "set (dropWhile P xs) \<subseteq> set (dropWhile P ys)"
proof -
  obtain zs where ys: "ys = xs @ zs" using assms by (auto simp add: prefix_def)
  show ?thesis
  proof (cases "\<forall>x\<in>set xs. P x")
    case True
    then have empty: "dropWhile P xs = []" by simp
    show ?thesis unfolding empty by simp
  next
    case False
    then show ?thesis by (auto simp add: ys dropWhile_append)
  qed
qed

lemma after_release:
  "c \<in> set (dropWhile (\<lambda>c. c \<noteq> ReleaseWriter Socket) (session_calls w emailConfig env)) \<Longrightarrow>
   c \<noteq> Read Socket \<and> (\<forall>bytes. c \<noteq> Write Socket bytes)"
  by (auto simp add: session_calls_def)

lemma stopped_run:
  assumes "n < length (snd (sendEmail w emailConfig env))"
    and "\<not> passes (steps w emailConfig env ! n)
             (react w (take (Suc n) (session_calls w emailConfig env)))"
  shows "snd (sendEmail w emailConfig env) = take (Suc n) (session_calls w emailConfig env)"
    and "fst (sendEmail w emailConfig env) = Value r \<Longrightarrow> \<not> success r"
proof -
  let ?s = "steps w emailConfig env ! n"
  let ?r = "react w (take (Suc n) (session_calls w emailConfig env))"
  have eq: "sendEmail w emailConfig env
              = conclude emailConfig (stop ?s ?r, take (Suc n) (session_calls w emailConfig env))"
    using assms(2) by (subst sendEmail_reached [OF assms(1)]) simp
  show "snd (sendEmail w emailConfig env) = take (Suc n) (session_calls w emailConfig env)"
    by (simp add: eq snd_conclude)
  show "fst (sendEmail w emailConfig env) = Value r \<Longrightarrow> \<not> success r"
    using stop_no_value [OF assms(2), of "()"]
    by (cases "stop ?s ?r") (auto simp add: eq conclude_def failed_def)
qed

lemma conclude_throw:
  "fst (conclude emailConfig (Throw e, tr)) = Value r \<Longrightarrow> \<not> success r"
  by (auto simp add: conclude_def failed_def)

lemma trim_examples:
  "trim (js ''220 relay ready'' @ CRLF) = js ''220 relay ready''"
  "trim (js ''500 error'') = js ''500 error''"
  by (simp_all add: trim_def isWhiteSpace_def js_def CRLF_def)

lemma rejected_ehlo_run:
  "sendEmail relay_rejecting_ehlo message_ab env_example =
     (Value (failed (js ''EHLO failed: 500 error'')),
      take 10 (session_calls relay_rejecting_ehlo message_ab env_example))"
proof -
  have react: "react relay_rejecting_ehlo
                 = simulated_relay [js ''220 relay ready'' @ CRLF, js ''500 error''] (\<lambda>c. Returns None)"
    by (simp add: relay_rejecting_ehlo_def)
  have no: "\<not> startsWith (trim (js ''500 error'')) (js ''250'')"
    using trim_examples(2) by (simp add: startsWith_def js_def)
  have label: "js ''EHLO failed'' @ js '': '' @ js ''500 error'' = js ''EHLO failed: 500 error''"
    by (simp add: js_def)
  have "run relay_rejecting_ehlo (steps relay_rejecting_ehlo message_ab env_example) [] =
          (Throw (Error (js ''EHLO failed: 500 error'')),
           take 10 (session_calls relay_rejecting_ehlo message_ab env_example))"
    using starts_examples(1) no trim_examples(2) label
    by (simp add: steps_def send_def session_calls_def react simulated_relay_def
        split del: if_split)
  then show ?thesis
    by (simp add: sendEmail_run [OF example_present] conclude_error)
qed

lemma failing_teardown_react:
  "react relay_failing_teardown =
     simulated_relay
       [js ''220 relay ready'' @ CRLF, js ''250 hello'' @ CRLF, js ''220 go ahead'' @ CRLF,
        js ''250 hello'' @ CRLF, js ''334 VXNlcm5hbWU6'' @ CRLF, js ''334 UGFzc3dvcmQ6'' @ CRLF,
        js ''235 authenticated'' @ CRLF, js ''250 sender ok'' @ CRLF,
        js ''250 recipient ok'' @ CRLF, js ''354 send data'' @ CRLF, js ''250 queued'' @ CRLF,
        js ''221 bye'' @ CRLF]
       (\<lambda>c. if c = CloseWriter SecureSocket \<or> c = Close SecureSocket
            then Throws (Error (js ''stream closed'')) else Returns None)"
  by (simp add: relay_failing_teardown_def)

lemma present_examples:
  "parametersPresent message_dotted env_example"
  "parametersPresent message_ab env_defaults"
  "parametersPresent message_ab env_euro_password"
  "parametersPresent message_two_content_types env_example"
  by (simp_all add: parametersPresent_def message_dotted_def message_ab_def env_example_def
      env_defaults_def env_euro_password_def message_two_content_types_def truthy_def
      smtp_username_def or_default_def CRLF_def)

lemma defaults_ready: "list_all ready (steps w emailConfig env_defaults)"
  by (simp add: ready_steps env_defaults_def smtp_username_def or_default_def text_of_def js_latin1)


lemma clock_text: "numberText 1793610000000 = js ''1793610000000''"
  by (simp add: numberText_def digits.simps js_def)


lemma refused_password:
  assumes "react w = react relay_accepting" and "parametersPresent emailConfig env"
    and "latin1 (smtp_username env)" and "\<not> latin1 (text_of (SMTP_PASSWORD env))"
  shows "sendEmail w emailConfig env =
           conclude emailConfig
             (Throw (btoaError w), take 24 (session_calls w emailConfig env))"
proof -
  let ?ss = "steps w emailConfig env"
  have relay: "react w =
     simulated_relay
       [js ''220 relay ready'' @ CRLF, js ''250 hello'' @ CRLF, js ''220 go ahead'' @ CRLF,
        js ''250 hello'' @ CRLF, js ''334 VXNlcm5hbWU6'' @ CRLF, js ''334 UGFzc3dvcmQ6'' @ CRLF,
        js ''235 authenticated'' @ CRLF, js ''250 sender ok'' @ CRLF,
        js ''250 recipient ok'' @ CRLF, js ''354 send data'' @ CRLF, js ''250 queued'' @ CRLF,
        js ''221 bye'' @ CRLF]
       (\<lambda>c. Returns None)"
    using assms(1) example_react by simp
  have ready: "list_all ready (take 24 ?ss)"
    using assms(3) by (simp only: ready_steps_24)
  have first: "run w (take 24 ?ss) [] = (Value (), [] @ map call_of (take 24 ?ss))"
    using relay
    by (rule accepted_run)
       (rule ready, rule returning_passes, simp,
        simp only: list.size filter.simps drop_0 accepts_steps_24, intro conjI starts_examples)
  have ne: "drop 24 ?ss \<noteq> []"
    by (simp add: length_steps)
  have hd: "hd (drop 24 ?ss) = SendBase64 (text_of (SMTP_PASSWORD env))"
    by (simp add: steps_def send_def)
  have rest: "run w (drop 24 ?ss) tr = (Throw (btoaError w), tr)" for tr
    using assms(4) by (subst run_next [OF ne]) (simp add: hd)
  have "run w (take 24 ?ss @ drop 24 ?ss) [] = (Throw (btoaError w), map call_of (take 24 ?ss))"
    by (subst run_append) (simp add: first rest)
  then have "run w ?ss [] = (Throw (btoaError w), take 24 (session_calls w emailConfig env))"
    by (simp only: take_map [symmetric] steps_calls append_take_drop_id)
  then show ?thesis
    by (simp add: sendEmail_run [OF assms(2)])
qed

lemma failing_teardown_run:
  "sendEmail relay_failing_teardown message_ab env_example =
     (Value (sent message_ab), session_calls relay_failing_teardown message_ab env_example)"
proof -
  have "run relay_failing_teardown (steps relay_failing_teardown message_ab env_example) [] =
          (Value (), [] @ map call_of (steps relay_failing_teardown message_ab env_example))"
    using failing_teardown_react
    by (rule accepted_run)
       (rule example_ready, simp add: steps_def send_def,
        simp only: list.size filter.simps drop_0 accepts_steps, intro conjI starts_examples)
  then show ?thesis
    by (simp add: sendEmail_run [OF example_present] conclude_def steps_calls)
qed

section \<open>Header lines\<close>

lemma split_crlf_step:
  "ys \<noteq> [] \<Longrightarrow> c \<noteq> 0x0D \<Longrightarrow> split_crlf line (c # ys) = split_crlf (line @ [c]) ys"
  by (cases ys) simp_all

lemma split_crlf_line:
  "0x0D \<notin> set x \<Longrightarrow> split_crlf line (x @ CRLF @ rest) = (line @ x) # split_crlf [] rest"
proof (induction x arbitrary: line)
  case Nil
  show ?case by (simp add: CRLF_def)
next
  case (Cons c x)
  have "split_crlf line (c # (x @ CRLF @ rest)) = split_crlf (line @ [c]) (x @ CRLF @ rest)"
    using Cons.prems by (intro split_crlf_step) (simp_all add: CRLF_def)
  then show ?case using Cons by simp
qed

lemma split_crlf_join:
  "hs \<noteq> [] \<Longrightarrow> \<forall>h\<in>set hs. 0x0D \<notin> set h \<Longrightarrow>
   split_crlf [] (join hs CRLF @ CRLF @ rest) = hs @ split_crlf [] rest"
proof (induction hs CRLF rule: join.induct)
  case 1
  then show ?case by simp
next
  case (2 x)
  then show ?case using split_crlf_line [of x "[]" rest] by simp
next
  case (3 x y ys)
  have "split_crlf [] (x @ CRLF @ join (y # ys) CRLF @ CRLF @ rest)
          = x # split_crlf [] (join (y # ys) CRLF @ CRLF @ rest)"
    using 3(3) split_crlf_line [of x "[]" "join (y # ys) CRLF @ CRLF @ rest"] by simp
  then show ?case using 3 by simp
qed

lemma header_lines_join:
  assumes "hs \<noteq> []" and "\<forall>h\<in>set hs. 0x0D \<notin> set h" and "\<forall>h\<in>set hs. h \<noteq> []"
  shows "header_lines (join hs CRLF @ CRLF @ CRLF @ rest) = hs"
proof -
  have "split_crlf [] (join hs CRLF @ CRLF @ CRLF @ rest) = hs @ [] # split_crlf [] rest"
    using split_crlf_join [OF assms(1,2), of "CRLF @ rest"] split_crlf_line [of "[]" "[]" rest]
    by simp
  then show ?thesis
    using assms(3) by (simp add: header_lines_def takeWhile_append2)
qed

lemma numberText_single: "0x0D \<notin> set (numberText i)"
  using digits_range [of "0x0D"] by (auto simp add: numberText_def)

lemma headers_single:
  assumes "single_line (from_name emailConfig)" and "single_line (from_email emailConfig env)"
    and "single_line (text_of (to emailConfig))" and "single_line (text_of (subject emailConfig))"
    and "single_line (toUTCString w)" and "single_line (smtp_host env)"
  shows "\<forall>h\<in>set (emailHeaders w emailConfig env). 0x0D \<notin> set h"
  using assms numberText_single [of "now w"]
  by (simp add: emailHeaders_def single_line_def js_def)

lemma headers_not_empty: "\<forall>h\<in>set (emailHeaders w emailConfig env). h \<noteq> []"
  by (simp add: emailHeaders_def)

lemma header_names:
  "map (takeWhile (\<lambda>c. c \<noteq> 0x3A)) (emailHeaders w emailConfig env)
     = [js ''From'', js ''To'', js ''Subject'', js ''Date'', js ''Message-ID'', js ''MIME-Version'',
        js ''Content-Type'', js ''Content-Transfer-Encoding'']"
  by (simp add: emailHeaders_def js_def)

section \<open>The claims\<close>




text \<open>
  C2. At every step of the table that checks a reply (\<open>checked_steps\<close> lists the eleven
  of them with their codes and labels): when the session performs the read of that step
  and the trimmed reply does not start with the expected code, \<open>sendEmail\<close> returns
  \<open>success = false\<close> with the error \<open>label: reply\<close>, which contains the step's label and
  the trimmed reply, and the read is the session's last call.
\<close>

theorem mismatched_reply_fails:
  assumes "n < length (snd (sendEmail w emailConfig env))"
    and "steps w emailConfig env ! n = Reply code label
         \<or> steps w emailConfig env ! n = SecureReply code label"
    and "react w (take (Suc n) (snd (sendEmail w emailConfig env))) = Returns (Some chunk)"
    and "\<not> startsWith (trim chunk) code"
  shows "sendEmail w emailConfig env =
           (Value \<lparr>success = False, message = None, error = Some (label @ js '': '' @ trim chunk)\<rparr>,
            take (Suc n) (session_calls w emailConfig env))
         \<and> sublist label (label @ js '': '' @ trim chunk)
         \<and> sublist (trim chunk) (label @ js '': '' @ trim chunk)
         \<and> sublist (trim chunk) chunk"
proof -
  have "take (Suc n) (session_calls w emailConfig env)
          = take (Suc n) (snd (sendEmail w emailConfig env))"
    using trace_prefix assms(1) by (intro prefix_take) simp_all
  then have r: "react w (take (Suc n) (session_calls w emailConfig env)) = Returns (Some chunk)"
    using assms(3) by simp
  have "sendEmail w emailConfig env =
          (Value (failed (label @ js '': '' @ trim chunk)),
           take (Suc n) (session_calls w emailConfig env))"
    using assms(2,4)
    by (subst sendEmail_reached [OF assms(1)]) (auto simp add: r conclude_error)
  moreover have "sublist (trim chunk) (label @ js '': '' @ trim chunk)"
    using sublist_appendI [of "trim chunk" "label @ js '': ''" "[]"] by simp
  ultimately show ?thesis
    by (simp add: failed_def trim_sublist)
qed

theorem mismatched_reply_fails_witness:
  "9 < length (snd (sendEmail relay_rejecting_ehlo message_ab env_example))
   \<and> steps relay_rejecting_ehlo message_ab env_example ! 9 = Reply (js ''250'') (js ''EHLO failed'')
   \<and> react relay_rejecting_ehlo
        (take (Suc 9) (snd (sendEmail relay_rejecting_ehlo message_ab env_example)))
      = Returns (Some (js ''500 error''))
   \<and> \<not> startsWith (trim (js ''500 error'')) (js ''250'')
   \<and> fst (sendEmail relay_rejecting_ehlo message_ab env_example)
      = Value \<lparr>success = False, message = None, error = Some (js ''EHLO failed: 500 error'')\<rparr>
   \<and> sublist (js ''EHLO failed'') (js ''EHLO failed: 500 error'')"
proof -
  have h1: "9 < length (snd (sendEmail relay_rejecting_ehlo message_ab env_example))"
    by (simp add: rejected_ehlo_run length_session_calls)
  have h2: "steps relay_rejecting_ehlo message_ab env_example ! 9 = Reply (js ''250'') (js ''EHLO failed'')"
    by (simp add: steps_def)
  have h3: "react relay_rejecting_ehlo
              (take (Suc 9) (snd (sendEmail relay_rejecting_ehlo message_ab env_example)))
            = Returns (Some (js ''500 error''))"
    unfolding rejected_ehlo_run
    by (simp add: session_calls_def relay_rejecting_ehlo_def simulated_relay_def)
  have h4: "\<not> startsWith (trim (js ''500 error'')) (js ''250'')"
    using trim_examples(2) by (simp add: startsWith_def js_def)
  have label: "js ''EHLO failed'' @ js '': '' @ js ''500 error'' = js ''EHLO failed: 500 error''"
    by (simp add: js_def)
  from mismatched_reply_fails [OF h1 disjI1 [OF h2] h3 h4] h1 h2 h3 h4
  show ?thesis
    by (simp only: trim_examples label fst_conv simp_thms)
qed

text \<open>
  C3. The trace of every run is a prefix of \<open>session_calls\<close>: greeting read, EHLO,
  STARTTLS, the upgrade, EHLO, AUTH LOGIN, the base64 username and password, MAIL FROM,
  RCPT TO, DATA, the message, QUIT, the teardown. The replies are checked against 220,
  250, 220, 250, 334, 334, 235, 250, 250, 354, 250 and the last against nothing.
  The session goes on exactly as far as its steps pass: with the parameters present the
  first call is made; a call is followed by another one only if its step passed; a step
  that passed is followed by the call of the next step, unless that step is the write of
  a username or password that \<open>btoa\<close> refuses (steps 22 and 24, and no other step),
  which ends the run there without success;
  a step that does not pass ends the run there, without success; a run that reports
  success has made all 39 calls, and a run that has made all 39 calls and whose last
  call settled reports success. From the release of the plaintext writer on, the trace
  has no read from and no write to the plaintext socket.
\<close>

theorem session_order:
  "prefix (snd (sendEmail w emailConfig env)) (session_calls w emailConfig env)
   \<and> session_calls w emailConfig env = map call_of (steps w emailConfig env)
   \<and> map expected_code (filter (\<lambda>s. is_read (call_of s)) (steps w emailConfig env))
       = [Some (js ''220''), Some (js ''250''), Some (js ''220''), Some (js ''250''),
          Some (js ''334''), Some (js ''334''), Some (js ''235''), Some (js ''250''),
          Some (js ''250''), Some (js ''354''), Some (js ''250''), None]
   \<and> (parametersPresent emailConfig env \<longrightarrow> 0 < length (snd (sendEmail w emailConfig env)))
   \<and> (\<forall>n. Suc n < length (snd (sendEmail w emailConfig env)) \<longrightarrow>
          passes (steps w emailConfig env ! n)
            (react w (take (Suc n) (session_calls w emailConfig env))))
   \<and> (\<forall>n. n < length (snd (sendEmail w emailConfig env)) \<and>
          passes (steps w emailConfig env ! n)
            (react w (take (Suc n) (session_calls w emailConfig env))) \<and>
          Suc n < 39 \<and> ready (steps w emailConfig env ! Suc n) \<longrightarrow>
          Suc n < length (snd (sendEmail w emailConfig env)))
   \<and> (\<forall>n. n < length (snd (sendEmail w emailConfig env)) \<and>
          passes (steps w emailConfig env ! n)
            (react w (take (Suc n) (session_calls w emailConfig env))) \<and>
          Suc n < 39 \<and> \<not> ready (steps w emailConfig env ! Suc n) \<longrightarrow>
          length (snd (sendEmail w emailConfig env)) = Suc n \<and>
          (\<forall>r. fst (sendEmail w emailConfig env) = Value r \<longrightarrow> \<not> success r))
   \<and> (\<forall>n<39. ready (steps w emailConfig env ! n) \<longleftrightarrow>
          (n = 22 \<longrightarrow> latin1 (smtp_username env)) \<and>
          (n = 24 \<longrightarrow> latin1 (text_of (SMTP_PASSWORD env))))
   \<and> (\<forall>n. n < length (snd (sendEmail w emailConfig env)) \<and>
          \<not> passes (steps w emailConfig env ! n)
              (react w (take (Suc n) (session_calls w emailConfig env))) \<longrightarrow>
          length (snd (sendEmail w emailConfig env)) = Suc n \<and>
          (\<forall>r. fst (sendEmail w emailConfig env) = Value r \<longrightarrow> \<not> success r))
   \<and> (\<forall>r. fst (sendEmail w emailConfig env) = Value r \<and> success r \<longrightarrow>
          snd (sendEmail w emailConfig env) = session_calls w emailConfig env)
   \<and> (38 < length (snd (sendEmail w emailConfig env)) \<and>
        passes (steps w emailConfig env ! 38) (react w (session_calls w emailConfig env)) \<longrightarrow>
        fst (sendEmail w emailConfig env) = Value (sent emailConfig))
   \<and> (\<forall>c \<in> set (dropWhile (\<lambda>c. c \<noteq> ReleaseWriter Socket) (snd (sendEmail w emailConfig env))).
          c \<noteq> Read Socket \<and> (\<forall>bytes. c \<noteq> Write Socket bytes))"
proof -
  let ?tr = "snd (sendEmail w emailConfig env)"
  let ?calls = "session_calls w emailConfig env"
  let ?ss = "steps w emailConfig env"
  have order: "prefix ?tr ?calls"
    by (rule trace_prefix)
  have table: "?calls = map call_of ?ss"
    by (simp add: steps_calls)
  have codes: "map expected_code (filter (\<lambda>s. is_read (call_of s)) ?ss)
       = [Some (js ''220''), Some (js ''250''), Some (js ''220''), Some (js ''250''),
          Some (js ''334''), Some (js ''334''), Some (js ''235''), Some (js ''250''),
          Some (js ''250''), Some (js ''354''), Some (js ''250''), None]"
    by (simp add: steps_def send_def)
  have starts: "parametersPresent emailConfig env \<longrightarrow> 0 < length ?tr"
    using first_call by blast
  have stops: "length ?tr = Suc n
                \<and> (\<forall>r. fst (sendEmail w emailConfig env) = Value r \<longrightarrow> \<not> success r)"
    if "n < length ?tr" and "\<not> passes (?ss ! n) (react w (take (Suc n) ?calls))" for n
  proof -
    have "Suc n \<le> length ?calls"
      using that(1) order prefix_length_le by fastforce
    then have "length ?tr = Suc n"
      by (simp add: stopped_run(1) [OF that])
    moreover have "\<not> success r" if "fst (sendEmail w emailConfig env) = Value r" for r
      using stopped_run(2) [OF \<open>n < length ?tr\<close> \<open>\<not> passes _ _\<close> that] .
    ultimately show ?thesis by simp
  qed
  have gated: "\<forall>n. Suc n < length ?tr \<longrightarrow> passes (?ss ! n) (react w (take (Suc n) ?calls))"
  proof (intro allI impI)
    fix n
    assume n: "Suc n < length ?tr"
    show "passes (?ss ! n) (react w (take (Suc n) ?calls))"
    proof (rule ccontr)
      assume "\<not> passes (?ss ! n) (react w (take (Suc n) ?calls))"
      then have "length ?tr = Suc n" using stops [of n] n by simp
      then show False using n by simp
    qed
  qed
  have progress: "\<forall>n. n < length ?tr \<and> passes (?ss ! n) (react w (take (Suc n) ?calls)) \<and>
                    Suc n < 39 \<and> ready (?ss ! Suc n) \<longrightarrow> Suc n < length ?tr"
    using next_call(1) by blast
  have refused: "\<forall>n. n < length ?tr \<and> passes (?ss ! n) (react w (take (Suc n) ?calls)) \<and>
                    Suc n < 39 \<and> \<not> ready (?ss ! Suc n) \<longrightarrow>
                    length ?tr = Suc n \<and>
                    (\<forall>r. fst (sendEmail w emailConfig env) = Value r \<longrightarrow> \<not> success r)"
  proof (intro allI impI, elim conjE)
    fix n
    assume n: "n < length ?tr" and "passes (?ss ! n) (react w (take (Suc n) ?calls))"
      and "Suc n < 39" and "\<not> ready (?ss ! Suc n)"
    then have eq: "sendEmail w emailConfig env
                     = conclude emailConfig (Throw (btoaError w), take (Suc n) ?calls)"
      by (rule next_call(2))
    have "length ?tr = Suc n"
      using \<open>Suc n < 39\<close> by (simp add: eq snd_conclude length_session_calls)
    moreover have "\<not> success r" if "fst (sendEmail w emailConfig env) = Value r" for r
      using that unfolding eq by (rule conclude_throw)
    ultimately show "length ?tr = Suc n
                  \<and> (\<forall>r. fst (sendEmail w emailConfig env) = Value r \<longrightarrow> \<not> success r)"
      by simp
  qed
  have encodable: "\<forall>n<39. ready (?ss ! n) \<longleftrightarrow>
                     (n = 22 \<longrightarrow> latin1 (smtp_username env)) \<and>
                     (n = 24 \<longrightarrow> latin1 (text_of (SMTP_PASSWORD env)))"
    using ready_step by blast
  have stopped: "\<forall>n. n < length ?tr \<and> \<not> passes (?ss ! n) (react w (take (Suc n) ?calls)) \<longrightarrow>
                   length ?tr = Suc n \<and>
                   (\<forall>r. fst (sendEmail w emailConfig env) = Value r \<longrightarrow> \<not> success r)"
    using stops by blast
  have complete: "\<forall>r. fst (sendEmail w emailConfig env) = Value r \<and> success r \<longrightarrow> ?tr = ?calls"
    using success_complete by blast
  have finished: "38 < length ?tr \<and> passes (?ss ! 38) (react w ?calls) \<longrightarrow>
                fst (sendEmail w emailConfig env) = Value (sent emailConfig)"
  proof (intro impI, elim conjE)
    assume n: "38 < length ?tr" and pass: "passes (?ss ! 38) (react w ?calls)"
    have "take (Suc 38) ?calls = ?calls"
      by (simp add: length_session_calls)
    then show "fst (sendEmail w emailConfig env) = Value (sent emailConfig)"
      using pass
      by (subst sendEmail_reached [OF n]) (simp add: length_steps conclude_def)
  qed
  have secure: "\<forall>c \<in> set (dropWhile (\<lambda>c. c \<noteq> ReleaseWriter Socket) ?tr).
                  c \<noteq> Read Socket \<and> (\<forall>bytes. c \<noteq> Write Socket bytes)"
    using set_dropWhile_prefix [OF order] after_release by blast
  show ?thesis
    by (intro conjI) (fact order table codes starts gated progress refused encodable stopped
        complete finished secure)+
qed

theorem session_order_witness:
  "parametersPresent message_ab env_example
   \<and> 0 < length (snd (sendEmail relay_rejecting_ehlo message_ab env_example))
   \<and> 7 < length (snd (sendEmail relay_rejecting_ehlo message_ab env_example))
   \<and> passes (steps relay_rejecting_ehlo message_ab env_example ! 7)
        (react relay_rejecting_ehlo
           (take (Suc 7) (session_calls relay_rejecting_ehlo message_ab env_example)))
   \<and> Suc 7 < 39
   \<and> ready (steps relay_rejecting_ehlo message_ab env_example ! Suc 7)
   \<and> Suc 7 < length (snd (sendEmail relay_rejecting_ehlo message_ab env_example))
   \<and> 9 < length (snd (sendEmail relay_rejecting_ehlo message_ab env_example))
   \<and> \<not> passes (steps relay_rejecting_ehlo message_ab env_example ! 9)
          (react relay_rejecting_ehlo
             (take (Suc 9) (session_calls relay_rejecting_ehlo message_ab env_example)))
   \<and> length (snd (sendEmail relay_rejecting_ehlo message_ab env_example)) = Suc 9
   \<and> 23 < length (snd (sendEmail relay_accepting message_ab env_euro_password))
   \<and> passes (steps relay_accepting message_ab env_euro_password ! 23)
        (react relay_accepting
           (take (Suc 23) (session_calls relay_accepting message_ab env_euro_password)))
   \<and> Suc 23 < 39
   \<and> \<not> ready (steps relay_accepting message_ab env_euro_password ! Suc 23)
   \<and> length (snd (sendEmail relay_accepting message_ab env_euro_password)) = Suc 23
   \<and> fst (sendEmail relay_accepting message_ab env_example) = Value (sent message_ab)
   \<and> success (sent message_ab)
   \<and> snd (sendEmail relay_accepting message_ab env_example)
       = session_calls relay_accepting message_ab env_example
   \<and> StartTls \<in> set (dropWhile (\<lambda>c. c \<noteq> ReleaseWriter Socket)
                       (snd (sendEmail relay_accepting message_ab env_example)))
   \<and> StartTls \<noteq> Read Socket"
proof -
  let ?r = "sendEmail relay_rejecting_ehlo message_ab env_example"
  let ?e = "sendEmail relay_accepting message_ab env_euro_password"
  let ?a = "sendEmail relay_accepting message_ab env_example"
  have a1: "7 < length (snd ?r)" and a5: "9 < length (snd ?r)"
    by (simp_all add: rejected_ehlo_run length_session_calls)
  have a2: "passes (steps relay_rejecting_ehlo message_ab env_example ! 7)
        (react relay_rejecting_ehlo
           (take (Suc 7) (session_calls relay_rejecting_ehlo message_ab env_example)))"
    using starts_examples(1)
    by (simp add: steps_def session_calls_def relay_rejecting_ehlo_def simulated_relay_def)
  have a3: "Suc 7 < 39" and b3: "Suc 23 < 39"
    by simp_all
  have a4: "ready (steps relay_rejecting_ehlo message_ab env_example ! Suc 7)"
    by (simp add: steps_def send_def)
  have a6: "\<not> passes (steps relay_rejecting_ehlo message_ab env_example ! 9)
          (react relay_rejecting_ehlo
             (take (Suc 9) (session_calls relay_rejecting_ehlo message_ab env_example)))"
    using trim_examples(2)
    by (simp add: steps_def session_calls_def relay_rejecting_ehlo_def simulated_relay_def
        startsWith_def js_def)
  have user: "latin1 (smtp_username env_euro_password)"
    by (simp add: env_euro_password_def env_example_def smtp_username_def or_default_def js_latin1)
  have pass: "\<not> latin1 (text_of (SMTP_PASSWORD env_euro_password))"
    by (simp add: env_euro_password_def text_of_def latin1_def)
  have b1: "23 < length (snd ?e)"
    by (simp add: refused_password [OF refl present_examples(3) user pass] snd_conclude
        length_session_calls)
  have b2: "passes (steps relay_accepting message_ab env_euro_password ! 23)
        (react relay_accepting
           (take (Suc 23) (session_calls relay_accepting message_ab env_euro_password)))"
    using starts_examples(5)
    by (simp add: steps_def session_calls_def example_react simulated_relay_def)
  have b4: "\<not> ready (steps relay_accepting message_ab env_euro_password ! Suc 23)"
    using pass by (simp add: steps_def send_def)
  have c1: "fst ?a = Value (sent message_ab)" and c2: "success (sent message_ab)"
    by (simp_all add: example_run sent_def)
  have d: "StartTls \<in> set (dropWhile (\<lambda>c. c \<noteq> ReleaseWriter Socket) (snd ?a))"
    unfolding example_run by (simp add: session_calls_def)
  note r = session_order [of relay_rejecting_ehlo message_ab env_example]
  note e = session_order [of relay_accepting message_ab env_euro_password]
  note a = session_order [of relay_accepting message_ab env_example]
  have "0 < length (snd ?r)"
    using r [THEN conjunct2, THEN conjunct2, THEN conjunct2, THEN conjunct1] example_present
    by blast
  moreover have "Suc 7 < length (snd ?r)"
    using r [THEN conjunct2, THEN conjunct2, THEN conjunct2, THEN conjunct2, THEN conjunct2,
        THEN conjunct1] a1 a2 a3 a4
    by blast
  moreover have "length (snd ?r) = Suc 9"
    using r [THEN conjunct2, THEN conjunct2, THEN conjunct2, THEN conjunct2, THEN conjunct2,
        THEN conjunct2, THEN conjunct2, THEN conjunct2, THEN conjunct1] a5 a6
    by blast
  moreover have "length (snd ?e) = Suc 23"
    using e [THEN conjunct2, THEN conjunct2, THEN conjunct2, THEN conjunct2, THEN conjunct2,
        THEN conjunct2, THEN conjunct1] b1 b2 b3 b4
    by blast
  moreover have "snd ?a = session_calls relay_accepting message_ab env_example"
    using a [THEN conjunct2, THEN conjunct2, THEN conjunct2, THEN conjunct2, THEN conjunct2,
        THEN conjunct2, THEN conjunct2, THEN conjunct2, THEN conjunct2, THEN conjunct1] c1 c2
    by blast
  moreover have "StartTls \<noteq> Read Socket"
    by simp
  ultimately show ?thesis
    using example_present a1 a2 a3 a4 a5 a6 b1 b2 b3 b4 c1 c2 d by (intro conjI)
qed

text \<open>
  C4. When the username, the password, the recipient, the subject or the body is absent
  or empty, \<open>sendEmail\<close> returns \<open>success = false\<close> and its trace is empty: it made no
  platform call at all, so no probe, no connection and no SMTP command.
\<close>

theorem absent_parameter_stops_before_connecting:
  assumes "\<not> truthy (SMTP_USERNAME env) \<or> \<not> truthy (SMTP_PASSWORD env)
           \<or> \<not> truthy (to emailConfig) \<or> \<not> truthy (subject emailConfig)
           \<or> \<not> truthy (body emailConfig)"
  shows "sendEmail w emailConfig env
           = (Value \<lparr>success = False, message = None,
                     error = Some
                       (if \<not> truthy (SMTP_PASSWORD env)
                        then js ''SMTP_PASSWORD environment variable is not set''
                        else if \<not> truthy (SMTP_USERNAME env)
                        then js ''SMTP_USERNAME environment variable is not set''
                        else js ''Missing required email parameters: to, subject, and body are required'')\<rparr>,
              [])"
proof -
  have "\<not> parametersPresent emailConfig env"
    using assms
    by (auto simp add: parametersPresent_def smtp_username_def or_default_def truthy_def
        split: option.splits)
  then show ?thesis
    by (simp add: sendEmail_absent failed_def)
qed

theorem absent_parameter_stops_before_connecting_witness:
  "\<not> truthy (SMTP_PASSWORD env_without_password)
   \<and> sendEmail relay_accepting message_ab env_without_password
       = (Value \<lparr>success = False, message = None,
                 error = Some (js ''SMTP_PASSWORD environment variable is not set'')\<rparr>, [])"
proof -
  have h: "\<not> truthy (SMTP_PASSWORD env_without_password)"
    by (simp add: env_without_password_def truthy_def)
  then have "\<not> truthy (SMTP_USERNAME env_without_password)
             \<or> \<not> truthy (SMTP_PASSWORD env_without_password)
             \<or> \<not> truthy (to message_ab) \<or> \<not> truthy (subject message_ab)
             \<or> \<not> truthy (body message_ab)"
    by simp
  from absent_parameter_stops_before_connecting [OF this, of relay_accepting] h
  show ?thesis by (simp only: if_True simp_thms)
qed



text \<open>
  C6, as amended. When the sender's name and address, the recipient, the subject, the
  host and the text of the date contain no carriage return and no line feed, the header
  block of the payload (its lines, as CRLF delimits them, up to the first empty one) is
  the list of the eight header lines: it has exactly one line that starts with
  \<open>Content-Type:\<close>, the html one when \<open>isHtml\<close> is true and the plain one when it is
  false or absent, and exactly one that starts with \<open>Content-Transfer-Encoding:\<close>, with
  \<open>8bit\<close>.
\<close>

theorem one_content_type_header:
  assumes "single_line (from_name emailConfig)" and "single_line (from_email emailConfig env)"
    and "single_line (text_of (to emailConfig))" and "single_line (text_of (subject emailConfig))"
    and "single_line (toUTCString w)" and "single_line (smtp_host env)"
  shows "header_lines (emailMessage w emailConfig env) = emailHeaders w emailConfig env
   \<and> map (takeWhile (\<lambda>c. c \<noteq> 0x3A)) (header_lines (emailMessage w emailConfig env))
       = [js ''From'', js ''To'', js ''Subject'', js ''Date'', js ''Message-ID'', js ''MIME-Version'',
          js ''Content-Type'', js ''Content-Transfer-Encoding'']
   \<and> filter (\<lambda>h. startsWith h (js ''Content-Type:'')) (header_lines (emailMessage w emailConfig env))
       = [if is_html emailConfig then js ''Content-Type: text/html; charset=UTF-8''
          else js ''Content-Type: text/plain; charset=UTF-8'']
   \<and> filter (\<lambda>h. startsWith h (js ''Content-Transfer-Encoding:''))
         (header_lines (emailMessage w emailConfig env))
       = [js ''Content-Transfer-Encoding: 8bit'']
   \<and> is_html emailConfig = (isHtml emailConfig = Some True)"
proof -
  have "emailHeaders w emailConfig env \<noteq> []"
    by (simp add: emailHeaders_def)
  then have "header_lines (join (emailHeaders w emailConfig env) CRLF @ CRLF @ CRLF
               @ text_of (body emailConfig) @ CRLF @ js ''.'') = emailHeaders w emailConfig env"
    using headers_single [OF assms] headers_not_empty by (rule header_lines_join)
  then have block: "header_lines (emailMessage w emailConfig env) = emailHeaders w emailConfig env"
    by (simp only: emailMessage_parts)
  have types: "filter (\<lambda>h. startsWith h (js ''Content-Type:'')) (emailHeaders w emailConfig env)
       = [if is_html emailConfig then js ''Content-Type: text/html; charset=UTF-8''
          else js ''Content-Type: text/plain; charset=UTF-8'']"
    by (simp add: emailHeaders_def startsWith_def js_def)
  have encodings: "filter (\<lambda>h. startsWith h (js ''Content-Transfer-Encoding:''))
         (emailHeaders w emailConfig env) = [js ''Content-Transfer-Encoding: 8bit'']"
    by (simp add: emailHeaders_def startsWith_def js_def)
  have flag: "is_html emailConfig = (isHtml emailConfig = Some True)"
    by (simp add: is_html_def split: option.splits)
  show ?thesis
    unfolding block using header_names types encodings flag by (intro conjI) simp_all
qed

theorem one_content_type_header_witness:
  "single_line (from_name message_ab) \<and> single_line (from_email message_ab env_example)
   \<and> single_line (text_of (to message_ab)) \<and> single_line (text_of (subject message_ab))
   \<and> single_line (toUTCString relay_accepting) \<and> single_line (smtp_host env_example)
   \<and> filter (\<lambda>h. startsWith h (js ''Content-Type:''))
        (header_lines (emailMessage relay_accepting message_ab env_example))
       = [js ''Content-Type: text/plain; charset=UTF-8'']"
proof -
  have h: "single_line (from_name message_ab)" "single_line (from_email message_ab env_example)"
    "single_line (text_of (to message_ab))" "single_line (text_of (subject message_ab))"
    "single_line (toUTCString relay_accepting)" "single_line (smtp_host env_example)"
    by (simp_all add: single_line_def from_name_def from_email_def sender_name_def
        sender_email_def smtp_username_def smtp_host_def or_default_def text_of_def message_ab_def
        env_example_def relay_accepting_def js_def)
  have b: "\<not> is_html message_ab"
    by (simp add: is_html_def message_ab_def)
  from one_content_type_header [OF h]
  have "filter (\<lambda>h. startsWith h (js ''Content-Type:''))
        (header_lines (emailMessage relay_accepting message_ab env_example))
       = [if is_html message_ab then js ''Content-Type: text/html; charset=UTF-8''
          else js ''Content-Type: text/plain; charset=UTF-8'']"
    by blast
  then show ?thesis
    using h by (simp only: b if_False simp_thms)
qed

text \<open>
  C6 as stated fails: the subject is copied into the header block as it is. With
  \<open>isHtml\<close> true and a subject that holds a CRLF followed by the plain variant, the header
  block of the payload has two lines that start with \<open>Content-Type:\<close>, the plain one and
  the html one, and a run against an accepting relay writes that payload.
\<close>

theorem two_content_type_headers_counterexample:
  "isHtml message_two_content_types = Some True
   \<and> subject message_two_content_types
       = Some (js ''S'' @ CRLF @ js ''Content-Type: text/plain; charset=UTF-8'')
   \<and> filter (\<lambda>h. startsWith h (js ''Content-Type:''))
        (header_lines (emailMessage relay_accepting message_two_content_types env_example))
       = [js ''Content-Type: text/plain; charset=UTF-8'',
          js ''Content-Type: text/html; charset=UTF-8'']
   \<and> fst (sendEmail relay_accepting message_two_content_types env_example)
       = Value (sent message_two_content_types)
   \<and> snd (sendEmail relay_accepting message_two_content_types env_example) ! 32
       = Write SecureSocket
           (encode (emailMessage relay_accepting message_two_content_types env_example @ CRLF))"
proof -
  let ?lines =
    "[js ''From: Notification <user@example.com>'', js ''To: a@b.com'', js ''Subject: S'',
      js ''Content-Type: text/plain; charset=UTF-8'', js ''Date: Mon, 02 Nov 2026 09:00:00 GMT'',
      js ''Message-ID: <1793610000000@smtp.example.com>'', js ''MIME-Version: 1.0'',
      js ''Content-Type: text/html; charset=UTF-8'', js ''Content-Transfer-Encoding: 8bit'']"
  have "now relay_accepting = 1793610000000"
    by (simp add: relay_accepting_def)
  then have "emailMessage relay_accepting message_two_content_types env_example
          = join ?lines CRLF @ CRLF @ CRLF @ js ''B'' @ CRLF @ js ''.''"
    by (simp add: emailMessage_def emailHeaders_def message_two_content_types_def env_example_def
        relay_accepting_def from_name_def from_email_def sender_name_def sender_email_def
        smtp_username_def smtp_host_def or_default_def text_of_def is_html_def clock_text
        js_append [symmetric])
  moreover have "header_lines (join ?lines CRLF @ CRLF @ CRLF @ js ''B'' @ CRLF @ js ''.'') = ?lines"
    by (rule header_lines_join) (simp_all add: js_def)
  ultimately have "header_lines (emailMessage relay_accepting message_two_content_types env_example)
                     = ?lines"
    by simp
  then have two: "filter (\<lambda>h. startsWith h (js ''Content-Type:''))
        (header_lines (emailMessage relay_accepting message_two_content_types env_example))
       = [js ''Content-Type: text/plain; charset=UTF-8'',
          js ''Content-Type: text/html; charset=UTF-8'']"
    by (simp add: startsWith_def js_def)
  have run: "sendEmail relay_accepting message_two_content_types env_example
               = (Value (sent message_two_content_types),
                  session_calls relay_accepting message_two_content_types env_example)"
    by (rule accepting_run [OF refl present_examples(4) example_ready])
  have wire: "snd (sendEmail relay_accepting message_two_content_types env_example) ! 32
       = Write SecureSocket
           (encode (emailMessage relay_accepting message_two_content_types env_example @ CRLF))"
    unfolding run by (simp add: session_calls_def)
  have given: "isHtml message_two_content_types = Some True"
    "subject message_two_content_types
       = Some (js ''S'' @ CRLF @ js ''Content-Type: text/plain; charset=UTF-8'')"
    by (simp_all add: message_two_content_types_def)
  have sent: "fst (sendEmail relay_accepting message_two_content_types env_example)
       = Value (sent message_two_content_types)"
    by (simp add: run)
  show ?thesis
    using given two sent wire by (intro conjI)
qed

text \<open>
  C7. When the reply to the message starts with 250, the QUIT write returns and the read
  after it delivers a reply, whatever its text, then the writer is closed, the reader
  cancelled and the connection closed, in that order, and \<open>sendEmail\<close> returns
  \<open>success = true\<close> whether these three calls return or throw (provided the two
  awaited ones settle).
\<close>

theorem teardown_failures_ignored:
  assumes "33 < length (snd (sendEmail w emailConfig env))"
    and "react w (take 34 (session_calls w emailConfig env)) = Returns (Some accepted)"
    and "startsWith (trim accepted) (js ''250'')"
    and "react w (take 35 (session_calls w emailConfig env)) = Returns v"
    and "react w (take 36 (session_calls w emailConfig env)) = Returns (Some bye)"
    and "react w (take 37 (session_calls w emailConfig env)) \<noteq> Stalls"
    and "react w (take 39 (session_calls w emailConfig env)) \<noteq> Stalls"
  shows "sendEmail w emailConfig env
           = (Value \<lparr>success = True,
                     message = Some (js ''Email sent successfully to '' @ text_of (to emailConfig)),
                     error = None\<rparr>,
              session_calls w emailConfig env)
         \<and> drop 34 (session_calls w emailConfig env)
           = [Write SecureSocket (encode (js ''QUIT'' @ CRLF)), Read SecureSocket,
              CloseWriter SecureSocket, CancelReader SecureSocket, Close SecureSocket]"
proof -
  have "sendEmail w emailConfig env
          = conclude emailConfig
              (run w (drop 34 (steps w emailConfig env))
                 (take 34 (session_calls w emailConfig env)))"
    using assms(2,3)
    by (subst sendEmail_reached [OF assms(1)]) (simp add: steps_def)
  also have "\<dots> = (Value (sent emailConfig), session_calls w emailConfig env)"
    using assms(4-)
    by (simp add: steps_def send_def session_calls_def conclude_def split del: if_split)
  finally show ?thesis
    by (simp add: sent_def session_calls_def)
qed

theorem teardown_failures_ignored_witness:
  "33 < length (snd (sendEmail relay_failing_teardown message_ab env_example))
   \<and> react relay_failing_teardown
        (take 37 (session_calls relay_failing_teardown message_ab env_example))
      = Throws (Error (js ''stream closed''))
   \<and> react relay_failing_teardown
        (take 39 (session_calls relay_failing_teardown message_ab env_example))
      = Throws (Error (js ''stream closed''))
   \<and> fst (sendEmail relay_failing_teardown message_ab env_example)
      = Value \<lparr>success = True, message = Some (js ''Email sent successfully to a@b.com''),
               error = None\<rparr>"
proof -
  let ?calls = "session_calls relay_failing_teardown message_ab env_example"
  have h1: "33 < length (snd (sendEmail relay_failing_teardown message_ab env_example))"
    by (simp add: failing_teardown_run length_session_calls)
  have h2: "react relay_failing_teardown (take 34 ?calls) = Returns (Some (js ''250 queued'' @ CRLF))"
    by (simp add: session_calls_def failing_teardown_react simulated_relay_def)
  have h3: "startsWith (trim (js ''250 queued'' @ CRLF)) (js ''250'')"
    by (rule starts_examples)
  have h4: "react relay_failing_teardown (take 35 ?calls) = Returns None"
    by (simp add: session_calls_def failing_teardown_react simulated_relay_def)
  have h5: "react relay_failing_teardown (take 36 ?calls) = Returns (Some (js ''221 bye'' @ CRLF))"
    by (simp add: session_calls_def failing_teardown_react simulated_relay_def)
  have h6: "react relay_failing_teardown (take 37 ?calls) = Throws (Error (js ''stream closed''))"
    by (simp add: session_calls_def failing_teardown_react simulated_relay_def)
  have h7: "react relay_failing_teardown (take 39 ?calls) = Throws (Error (js ''stream closed''))"
    by (simp add: session_calls_def failing_teardown_react simulated_relay_def)
  have t: "js ''Email sent successfully to '' @ text_of (to message_ab)
             = js ''Email sent successfully to a@b.com''"
    by (simp add: message_ab_def text_of_def js_def)
  have "react relay_failing_teardown (take 37 ?calls) \<noteq> Stalls"
    and "react relay_failing_teardown (take 39 ?calls) \<noteq> Stalls"
    by (simp_all add: h6 h7)
  from teardown_failures_ignored [OF h1 h2 h3 h4 h5 this]
  have "fst (sendEmail relay_failing_teardown message_ab env_example)
      = Value \<lparr>success = True, message = Some (js ''Email sent successfully to a@b.com''),
               error = None\<rparr>"
    by (simp add: t)
  then show ?thesis
    using h1 h6 h7 by (intro conjI)
qed

text \<open>
  C8, as amended. Every \<open>connect\<close> of a run uses \<open>smtp_host\<close> and \<open>smtp_port\<close>: the
  supplied host and the parsed supplied port when they are non-empty, and otherwise
  \<open>smtp.office365.com\<close> and 587. The username and the password that are written are
  exactly the supplied ones, in base64 (and a run that writes one has had it accepted by
  \<open>btoa\<close>). The envelope sender and the From header carry the supplied sender address and
  display name when they are non-empty, and otherwise the username and \<open>Notification\<close>.
\<close>

theorem supplied_or_default:
  "(\<forall>h p opts. Connect h p opts \<in> set (snd (sendEmail w emailConfig env)) \<longrightarrow>
       h = smtp_host env \<and> p = smtp_port env)
   \<and> smtp_host env
       = (if truthy (SMTP_HOST env) then text_of (SMTP_HOST env) else js ''smtp.office365.com'')
   \<and> smtp_port env
       = (if truthy (SMTP_PORT env) then parseInt (text_of (SMTP_PORT env)) else Some 587)
   \<and> (22 < length (snd (sendEmail w emailConfig env)) \<longrightarrow>
        truthy (SMTP_USERNAME env) \<and> latin1 (text_of (SMTP_USERNAME env)) \<and>
        snd (sendEmail w emailConfig env) ! 22
          = Write SecureSocket (encode (base64 (text_of (SMTP_USERNAME env)) @ CRLF)))
   \<and> (24 < length (snd (sendEmail w emailConfig env)) \<longrightarrow>
        truthy (SMTP_PASSWORD env) \<and> latin1 (text_of (SMTP_PASSWORD env)) \<and>
        snd (sendEmail w emailConfig env) ! 24
          = Write SecureSocket (encode (base64 (text_of (SMTP_PASSWORD env)) @ CRLF)))
   \<and> (26 < length (snd (sendEmail w emailConfig env)) \<longrightarrow>
        snd (sendEmail w emailConfig env) ! 26
          = Write SecureSocket (encode (js ''MAIL FROM:<'' @ from_email emailConfig env @ js ''>'' @ CRLF)))
   \<and> hd (emailHeaders w emailConfig env)
       = js ''From: '' @ from_name emailConfig @ js '' <'' @ from_email emailConfig env @ js ''>''
   \<and> from_email emailConfig env
       = (if truthy (sender_email emailConfig) then text_of (sender_email emailConfig)
          else if truthy (SMTP_USERNAME env) then text_of (SMTP_USERNAME env) else [])
   \<and> from_name emailConfig
       = (if truthy (sender_name emailConfig) then text_of (sender_name emailConfig)
          else js ''Notification'')"
proof -
  let ?tr = "snd (sendEmail w emailConfig env)"
  have connects: "h = smtp_host env \<and> p = smtp_port env" if "Connect h p opts \<in> set ?tr" for h p opts
  proof -
    have "Connect h p opts \<in> set (session_calls w emailConfig env)"
      using that trace_prefix [of w emailConfig env] set_mono_prefix by blast
    then show ?thesis by (auto simp add: session_calls_def)
  qed
  have defaults:
    "or_default v d = (if truthy v then text_of v else d)" for v d
    by (simp add: or_default_def truthy_def text_of_def split: option.splits)
  have host: "smtp_host env
       = (if truthy (SMTP_HOST env) then text_of (SMTP_HOST env) else js ''smtp.office365.com'')"
    by (simp add: smtp_host_def defaults)
  have port: "smtp_port env
       = (if truthy (SMTP_PORT env) then parseInt (text_of (SMTP_PORT env)) else Some 587)"
    by (simp add: smtp_port_def defaults port_587)
  have user: "truthy (SMTP_USERNAME env) \<and> latin1 (text_of (SMTP_USERNAME env)) \<and>
        ?tr ! 22 = Write SecureSocket (encode (base64 (text_of (SMTP_USERNAME env)) @ CRLF))"
    if "22 < length ?tr"
  proof -
    have "?tr \<noteq> []" using that by auto
    then have "parametersPresent emailConfig env"
      by (rule present_of_trace)
    then have given: "truthy (SMTP_USERNAME env)"
      and same: "smtp_username env = text_of (SMTP_USERNAME env)"
      by (auto simp add: parametersPresent_def smtp_username_def or_default_def truthy_def
          text_of_def split: option.splits)
    have "latin1 (text_of (SMTP_USERNAME env))"
      using trace_ready [OF that] by (simp add: steps_def same)
    then show ?thesis
      using given by (simp add: nth_of_trace [OF that] session_calls_def same)
  qed
  have pass: "truthy (SMTP_PASSWORD env) \<and> latin1 (text_of (SMTP_PASSWORD env)) \<and>
        ?tr ! 24 = Write SecureSocket (encode (base64 (text_of (SMTP_PASSWORD env)) @ CRLF))"
    if "24 < length ?tr"
  proof -
    have "?tr \<noteq> []" using that by auto
    then have "parametersPresent emailConfig env"
      by (rule present_of_trace)
    then have given: "truthy (SMTP_PASSWORD env)"
      by (simp add: parametersPresent_def)
    have "latin1 (text_of (SMTP_PASSWORD env))"
      using trace_ready [OF that] by (simp add: steps_def)
    then show ?thesis
      using given by (simp add: nth_of_trace [OF that] session_calls_def)
  qed
  have mail: "?tr ! 26
          = Write SecureSocket (encode (js ''MAIL FROM:<'' @ from_email emailConfig env @ js ''>'' @ CRLF))"
    if "26 < length ?tr"
    by (simp add: nth_of_trace [OF that] session_calls_def)
  have header: "hd (emailHeaders w emailConfig env)
       = js ''From: '' @ from_name emailConfig @ js '' <'' @ from_email emailConfig env @ js ''>''"
    by (simp add: emailHeaders_def)
  have sender: "from_email emailConfig env
       = (if truthy (sender_email emailConfig) then text_of (sender_email emailConfig)
          else if truthy (SMTP_USERNAME env) then text_of (SMTP_USERNAME env) else [])"
    by (simp add: from_email_def smtp_username_def defaults)
  have display: "from_name emailConfig
       = (if truthy (sender_name emailConfig) then text_of (sender_name emailConfig)
          else js ''Notification'')"
    by (simp add: from_name_def defaults)
  show ?thesis
    using connects host port user pass mail header sender display by blast
qed

theorem supplied_or_default_witness:
  "Connect (js ''smtp.example.com'') (Some 587) None
     \<in> set (snd (sendEmail relay_accepting message_ab env_example))
   \<and> smtp_host env_example = js ''smtp.example.com'' \<and> smtp_port env_example = Some 587
   \<and> 22 < length (snd (sendEmail relay_accepting message_ab env_example))
   \<and> snd (sendEmail relay_accepting message_ab env_example) ! 22
       = Write SecureSocket (encode (base64 (js ''user@example.com'') @ CRLF))
   \<and> 24 < length (snd (sendEmail relay_accepting message_ab env_example))
   \<and> snd (sendEmail relay_accepting message_ab env_example) ! 24
       = Write SecureSocket (encode (base64 (js ''secret'') @ CRLF))
   \<and> 26 < length (snd (sendEmail relay_accepting message_ab env_example))"
proof -
  have host: "smtp_host env_example = js ''smtp.example.com''"
    by (simp add: smtp_host_def env_example_def or_default_def)
  have port: "smtp_port env_example = Some 587"
    by (simp add: smtp_port_def env_example_def or_default_def port_587)
  have a: "Connect (js ''smtp.example.com'') (Some 587) None
     \<in> set (snd (sendEmail relay_accepting message_ab env_example))"
    unfolding example_run by (simp add: session_calls_def host port)
  have n: "22 < length (snd (sendEmail relay_accepting message_ab env_example))"
    "24 < length (snd (sendEmail relay_accepting message_ab env_example))"
    "26 < length (snd (sendEmail relay_accepting message_ab env_example))"
    by (simp_all add: example_run length_session_calls)
  have t: "text_of (SMTP_USERNAME env_example) = js ''user@example.com''"
    "text_of (SMTP_PASSWORD env_example) = js ''secret''"
    by (simp_all add: env_example_def text_of_def)
  from supplied_or_default [of relay_accepting message_ab env_example] n
  have "snd (sendEmail relay_accepting message_ab env_example) ! 22
          = Write SecureSocket (encode (base64 (text_of (SMTP_USERNAME env_example)) @ CRLF))"
    and "snd (sendEmail relay_accepting message_ab env_example) ! 24
          = Write SecureSocket (encode (base64 (text_of (SMTP_PASSWORD env_example)) @ CRLF))"
    by blast+
  then show ?thesis
    using a n host port by (simp only: t simp_thms)
qed

text \<open>
  C8 as stated fails: with no host, no port and no sender supplied, the worker connects
  to \<open>smtp.office365.com\<close> on port 587 and writes \<open>Notification\<close> with the username
  into the From header.
\<close>

theorem no_defaulting_counterexample:
  "SMTP_HOST env_defaults = None \<and> SMTP_PORT env_defaults = None \<and> from' message_ab = None
   \<and> hd (snd (sendEmail relay_accepting message_ab env_defaults))
       = Connect (js ''smtp.office365.com'') (Some 587) None
   \<and> hd (emailHeaders relay_accepting message_ab env_defaults)
       = js ''From: Notification <user@example.com>''"
proof -
  have host: "smtp_host env_defaults = js ''smtp.office365.com''"
    by (simp add: smtp_host_def env_defaults_def or_default_def)
  have port: "smtp_port env_defaults = Some 587"
    by (simp add: smtp_port_def env_defaults_def or_default_def port_587)
  have a: "hd (snd (sendEmail relay_accepting message_ab env_defaults))
       = Connect (js ''smtp.office365.com'') (Some 587) None"
    by (simp add: accepting_run [OF refl present_examples(2) defaults_ready] session_calls_def
        host port)
  have b: "hd (emailHeaders relay_accepting message_ab env_defaults)
       = js ''From: Notification <user@example.com>''"
    by (simp add: emailHeaders_def from_name_def from_email_def sender_name_def sender_email_def
        smtp_username_def message_ab_def env_defaults_def or_default_def js_def)
  have c: "SMTP_HOST env_defaults = None" "SMTP_PORT env_defaults = None" "from' message_ab = None"
    by (simp_all add: env_defaults_def message_ab_def)
  show ?thesis
    using a b c by (intro conjI)
qed




text \<open>
  C10. A result returned by \<open>sendEmail\<close> has exactly one of the two optional fields:
  \<open>success = true\<close> comes with a message and no error, \<open>success = false\<close> with an error
  and no message.
\<close>

theorem result_shape:
  "fst (sendEmail w emailConfig env) = Value r \<Longrightarrow>
     (success r \<longrightarrow> message r \<noteq> None \<and> error r = None) \<and>
     (\<not> success r \<longrightarrow> error r \<noteq> None \<and> message r = None)"
  by (auto simp add: sendEmail_def try_catch_def bind_io_def return_io_def
      split: prod.splits outcome.splits)

theorem result_shape_witness:
  "fst (sendEmail relay_accepting message_ab env_example) = Value (sent message_ab)
   \<and> success (sent message_ab)
   \<and> message (sent message_ab) \<noteq> None \<and> error (sent message_ab) = None"
proof -
  have h: "fst (sendEmail relay_accepting message_ab env_example) = Value (sent message_ab)"
    by (simp add: example_run)
  have s: "success (sent message_ab)"
    by (simp add: sent_def)
  from result_shape [OF h] h s show ?thesis by simp
qed

end
